theory Spec2Isabelle
  imports Main
begin

section \<open>Exceptions, module outcomes and the calls a run issues\<close>

text \<open>
  The module \<^verbatim>\<open>s3_versioned_bucket.py\<close> talks to the object store through a boto3
  client. The exceptions it names are those of botocore: \<^verbatim>\<open>ClientError\<close> carries the
  error code of the response, \<^verbatim>\<open>EndpointConnectionError\<close> (with its text) and
  \<^verbatim>\<open>WaiterError\<close> are subclasses of \<^verbatim>\<open>BotoCoreError\<close>, and the constructor
  \<open>BotoCoreError\<close> stands for every other member of that class.
\<close>

datatype boto_exn =
    ClientError string
  | BotoCoreError
  | EndpointConnectionError string
  | WaiterError

fun is_ClientError :: "boto_exn \<Rightarrow> bool" where
  "is_ClientError (ClientError code) = True"
| "is_ClientError BotoCoreError = False"
| "is_ClientError (EndpointConnectionError text) = False"
| "is_ClientError WaiterError = False"

fun is_BotoCoreError :: "boto_exn \<Rightarrow> bool" where
  "is_BotoCoreError (ClientError code) = False"
| "is_BotoCoreError BotoCoreError = True"
| "is_BotoCoreError (EndpointConnectionError text) = True"
| "is_BotoCoreError WaiterError = True"

fun is_EndpointConnectionError :: "boto_exn \<Rightarrow> bool" where
  "is_EndpointConnectionError (EndpointConnectionError text) = True"
| "is_EndpointConnectionError (ClientError code) = False"
| "is_EndpointConnectionError BotoCoreError = False"
| "is_EndpointConnectionError WaiterError = False"

fun is_WaiterError :: "boto_exn \<Rightarrow> bool" where
  "is_WaiterError WaiterError = True"
| "is_WaiterError (ClientError code) = False"
| "is_WaiterError BotoCoreError = False"
| "is_WaiterError (EndpointConnectionError text) = False"

text \<open>
  How a run of the module ends. \<^verbatim>\<open>module.exit_json\<close>, \<^verbatim>\<open>module.fail_json\<close> and
  \<^verbatim>\<open>module.fail_json_aws\<close> leave the process (they raise \<^verbatim>\<open>SystemExit\<close>, which no
  \<^verbatim>\<open>except\<close> clause of the module catches); an exception that no clause catches ends the
  run as well. \<open>UnboundLocalError\<close> and \<open>NameError\<close> carry the name that was read.
\<close>

datatype halt =
    Exit_json bool
  | Fail_json string
  | Fail_json_aws boto_exn string
  | Uncaught boto_exn
  | UnboundLocalError string
  | NameError string

text \<open>
  One page of \<^verbatim>\<open>list_object_versions\<close> and of \<^verbatim>\<open>list_objects_v2\<close>. A field is \<open>None\<close>
  when the key is missing from the page (for \<open>DeleteMarkers\<close> and \<open>Versions\<close> also when
  its value is \<^verbatim>\<open>None\<close>: the module treats the two alike). An entry of \<open>DeleteMarkers\<close>
  or \<open>Versions\<close> is its \<^verbatim>\<open>(Key, VersionId)\<close>; an entry of \<open>Contents\<close> is its \<^verbatim>\<open>Key\<close>.
\<close>

record versions_page =
  DeleteMarkers :: "(string \<times> string) list option"
  Versions :: "(string \<times> string) list option"

record objects_page =
  Contents :: "string list option"

text \<open>
  The log of a run: every request sent to the store, in order, and every sleep. A listing
  request is logged with the page (or the exception) it produced. \<open>Sleep\<close> is the module's
  own \<^verbatim>\<open>time.sleep\<close>, \<open>RetrySleep\<close> the pause the retry decorator makes.
\<close>

datatype event =
    ListBuckets string
  | GetBucketVersioning string
  | PutBucketVersioning string string
  | ListObjectVersions string "boto_exn + versions_page"
  | ListObjectsV2 string "boto_exn + objects_page"
  | DeleteObject string string "string option"
  | DeleteBucket string
  | WaitBucketNotExists string
  | Sleep nat
  | RetrySleep nat

section \<open>The store client\<close>

text \<open>
  A page iterator, as \<^verbatim>\<open>paginator.paginate(...)\<close> returns it: it is exhausted, or its next
  request raises, or it yields a page and the rest of the listing, which is requested only
  after the loop body has run and so depends on the store as it is then. Every listing is
  finite.
\<close>

datatype ('p, 'w) page_iterator =
    StopIteration
  | Raises boto_exn
  | Yield 'p "'w \<Rightarrow> ('p, 'w) page_iterator"

text \<open>
  The boto3 client is a parameter of the model: a record of the operations the module
  calls, over a state \<open>'w\<close> of the store that the theorems leave arbitrary. An operation
  answers with an exception or a value and gives the store's next state.
  \<open>s3_get_bucket_versioning\<close> answers with the \<^verbatim>\<open>Status\<close> entry of the response
  (\<open>None\<close> when the response has none), \<open>s3_list_buckets\<close> with the names under
  \<^verbatim>\<open>Buckets\<close>, and \<open>s3_wait_bucket_not_exists\<close> is the \<^verbatim>\<open>bucket_not_exists\<close> waiter.
\<close>

record 'w s3_client =
  s3_list_buckets :: "string \<Rightarrow> 'w \<Rightarrow> (boto_exn + string list) \<times> 'w"
  s3_get_bucket_versioning :: "string \<Rightarrow> 'w \<Rightarrow> (boto_exn + string option) \<times> 'w"
  s3_put_bucket_versioning :: "string \<Rightarrow> string \<Rightarrow> 'w \<Rightarrow> (boto_exn + unit) \<times> 'w"
  s3_list_object_versions :: "string \<Rightarrow> 'w \<Rightarrow> (versions_page, 'w) page_iterator"
  s3_list_objects_v2 :: "string \<Rightarrow> 'w \<Rightarrow> (objects_page, 'w) page_iterator"
  s3_delete_object :: "string \<Rightarrow> string \<Rightarrow> string option \<Rightarrow> 'w \<Rightarrow> (boto_exn + unit) \<times> 'w"
  s3_delete_bucket :: "string \<Rightarrow> 'w \<Rightarrow> (boto_exn + unit) \<times> 'w"
  s3_wait_bucket_not_exists :: "string \<Rightarrow> 'w \<Rightarrow> (boto_exn + unit) \<times> 'w"

section \<open>Programs: state passing, exceptions, log\<close>

text \<open>
  A piece of the module is a function from the store's state to its result (\<open>Inl\<close> when it
  raised or left the process), the new state and the events it logged.
\<close>

type_synonym ('e, 'a, 'w) prog = "'w \<Rightarrow> ('e + 'a) \<times> 'w \<times> event list"

definition ret :: "'a \<Rightarrow> ('e, 'a, 'w) prog" where
  "ret a w = (Inr a, w, [])"

definition raise :: "'e \<Rightarrow> ('e, 'a, 'w) prog" where
  "raise e w = (Inl e, w, [])"

definition seq :: "('e, 'a, 'w) prog \<Rightarrow> ('a \<Rightarrow> ('e, 'b, 'w) prog) \<Rightarrow> ('e, 'b, 'w) prog" where
  "seq m f w = (case m w of
      (Inl e, w', t) \<Rightarrow> (Inl e, w', t)
    | (Inr a, w', t) \<Rightarrow> (case f a w' of (r, w'', t') \<Rightarrow> (r, w'', t @ t')))"

definition try_except :: "(boto_exn, 'a, 'w) prog \<Rightarrow> (boto_exn \<Rightarrow> halt) \<Rightarrow> (halt, 'a, 'w) prog" where
  "try_except m handler w = (case m w of
      (Inl e, w', t) \<Rightarrow> (Inl (handler e), w', t)
    | (Inr a, w', t) \<Rightarrow> (Inr a, w', t))"

definition issue :: "event \<Rightarrow> ('w \<Rightarrow> ('e + 'a) \<times> 'w) \<Rightarrow> ('e, 'a, 'w) prog" where
  "issue ev request w = (case request w of (r, w') \<Rightarrow> (r, w', [ev]))"

definition sleep :: "nat \<Rightarrow> ('e, unit, 'w) prog" where
  "sleep seconds w = (Inr (), w, [Sleep seconds])"

primrec for_each :: "('a \<Rightarrow> ('e, unit, 'w) prog) \<Rightarrow> 'a list \<Rightarrow> ('e, unit, 'w) prog" where
  "for_each body [] = ret ()"
| "for_each body (x # xs) = seq (body x) (\<lambda>_. for_each body xs)"

primrec for_pages ::
  "(boto_exn + 'p \<Rightarrow> event) \<Rightarrow> ('p \<Rightarrow> (halt, unit, 'w) prog) \<Rightarrow> ('p, 'w) page_iterator
    \<Rightarrow> (halt, unit, 'w) prog" where
  "for_pages request body StopIteration = ret ()"
| "for_pages request body (Raises e) = (\<lambda>w. (Inl (Uncaught e), w, [request (Inl e)]))"
| "for_pages request body (Yield page rest) =
     seq (\<lambda>w. (Inr (), w, [request (Inr page)]))
       (\<lambda>_. seq (body page) (\<lambda>_ w. for_pages request body (rest w) w))"

section \<open>The retry decorator\<close>

text \<open>
  Modelled from the spec: \<^verbatim>\<open>AWSRetry.exponential_backoff\<close> is imported from
  \<^verbatim>\<open>ansible.module_utils.ec2\<close> and is not among the sources. The spec describes it as a
  retry with exponential backoff, bounded by a maximum delay ceiling, applied to transient
  errors, with extra error codes treated as retryable, and escalating once the retries are
  used up. What the library fixes is the parameter \<open>retry_policy\<close>: the number of retries,
  the first delay, the growth factor and the error codes it holds transient. What the
  module passes (\<^verbatim>\<open>max_delay\<close>, \<^verbatim>\<open>catch_extra_error_codes\<close>) is an argument.
\<close>

record retry_policy =
  retries :: nat
  delay :: nat
  backoff :: nat
  base_found :: "string \<Rightarrow> bool"

primrec retry_func ::
  "(string \<Rightarrow> bool) \<Rightarrow> nat list \<Rightarrow> (boto_exn, 'a, 'w) prog \<Rightarrow> (boto_exn, 'a, 'w) prog" where
  "retry_func found [] f = f"
| "retry_func found (d # ds) f = (\<lambda>w. case f w of
      (Inr a, w', t) \<Rightarrow> (Inr a, w', t)
    | (Inl e, w', t) \<Rightarrow>
        (case e of
           ClientError code \<Rightarrow>
             if found code
             then (case retry_func found ds f w' of (r, w'', t') \<Rightarrow> (r, w'', t @ RetrySleep d # t'))
             else (Inl e, w', t)
         | _ \<Rightarrow> (Inl e, w', t)))"

definition backoff_delays :: "retry_policy \<Rightarrow> nat \<Rightarrow> nat list" where
  "backoff_delays pol max_delay =
     map (\<lambda>retry. min (delay pol * backoff pol ^ retry) max_delay) [0..<retries pol]"

definition exponential_backoff ::
  "retry_policy \<Rightarrow> nat \<Rightarrow> string list \<Rightarrow> (boto_exn, 'a, 'w) prog \<Rightarrow> (boto_exn, 'a, 'w) prog" where
  "exponential_backoff pol max_delay catch_extra_error_codes =
     retry_func (\<lambda>code. base_found pol code \<or> code \<in> set catch_extra_error_codes)
       (backoff_delays pol max_delay)"

section \<open>The module's functions\<close>

text \<open>\<^verbatim>\<open>bucket_exists\<close> (lines 63-65): one \<^verbatim>\<open>list_buckets\<close> request, not decorated.\<close>

definition bucket_exists :: "'w s3_client \<Rightarrow> string \<Rightarrow> (boto_exn, bool, 'w) prog" where
  "bucket_exists s3_client bucket_name =
     seq (issue (ListBuckets bucket_name) (s3_list_buckets s3_client bucket_name))
       (\<lambda>all_buckets. ret (list_ex (\<lambda>bucket. bucket = bucket_name) all_buckets))"

text \<open>\<^verbatim>\<open>get_bucket_versioning\<close> and \<^verbatim>\<open>put_bucket_versioning\<close> (lines 68-74), decorated.\<close>

definition get_bucket_versioning ::
  "retry_policy \<Rightarrow> 'w s3_client \<Rightarrow> string \<Rightarrow> (boto_exn, string option, 'w) prog" where
  "get_bucket_versioning pol s3_client bucket_name =
     exponential_backoff pol 120 [''NoSuchBucket'']
       (issue (GetBucketVersioning bucket_name) (s3_get_bucket_versioning s3_client bucket_name))"

definition put_bucket_versioning ::
  "retry_policy \<Rightarrow> 'w s3_client \<Rightarrow> string \<Rightarrow> string \<Rightarrow> (boto_exn, unit, 'w) prog" where
  "put_bucket_versioning pol s3_client bucket_name required_versioning =
     exponential_backoff pol 120 [''NoSuchBucket'']
       (issue (PutBucketVersioning bucket_name required_versioning)
          (s3_put_bucket_versioning s3_client bucket_name required_versioning))"

text \<open>
  \<^verbatim>\<open>wait_versioning_is_applied\<close> (lines 76-86). \<open>poll_versioning\<close> is the \<^verbatim>\<open>for\<close> loop
  with the given number of iterations left; when none is left the function falls through
  to \<^verbatim>\<open>module.fail_json\<close>. Both exception classes of the \<^verbatim>\<open>except\<close> clause are tested
  as the source lists them.
\<close>

definition fail_json_aws_on :: "string \<Rightarrow> boto_exn \<Rightarrow> halt" where
  "fail_json_aws_on msg e =
     (if is_BotoCoreError e \<or> is_ClientError e then Fail_json_aws e msg else Uncaught e)"

primrec poll_versioning ::
  "retry_policy \<Rightarrow> 'w s3_client \<Rightarrow> string \<Rightarrow> string \<Rightarrow> nat \<Rightarrow> (halt, string option, 'w) prog" where
  "poll_versioning pol s3_client bucket_name required_versioning 0 =
     raise (Fail_json ''Bucket versioning failed to apply in the excepted time'')"
| "poll_versioning pol s3_client bucket_name required_versioning (Suc remaining) =
     seq (try_except (get_bucket_versioning pol s3_client bucket_name)
            (fail_json_aws_on ''Failed to get updated versioning for bucket''))
       (\<lambda>versioning_status.
          if versioning_status \<noteq> Some required_versioning
          then seq (sleep 5)
                 (\<lambda>_. poll_versioning pol s3_client bucket_name required_versioning remaining)
          else ret versioning_status)"

definition wait_versioning_is_applied ::
  "retry_policy \<Rightarrow> 'w s3_client \<Rightarrow> string \<Rightarrow> string \<Rightarrow> (halt, string option, 'w) prog" where
  "wait_versioning_is_applied pol s3_client bucket_name required_versioning =
     poll_versioning pol s3_client bucket_name required_versioning 12"

text \<open>
  \<^verbatim>\<open>delete_bucket\<close> (lines 88-98): \<open>delete_bucket_wrapped\<close> is the function body, which the
  decorator wraps.
\<close>

definition delete_bucket_wrapped :: "'w s3_client \<Rightarrow> string \<Rightarrow> (boto_exn, unit, 'w) prog" where
  "delete_bucket_wrapped s3_client bucket_name w =
     (case issue (DeleteBucket bucket_name) (s3_delete_bucket s3_client bucket_name) w of
        (Inr u, w', t) \<Rightarrow> (Inr u, w', t)
      | (Inl e, w', t) \<Rightarrow>
          (case e of
             ClientError code \<Rightarrow>
               if code = ''NoSuchBucket'' then (Inr (), w', t) else (Inl e, w', t)
           | _ \<Rightarrow> (Inl e, w', t)))"

definition delete_bucket :: "retry_policy \<Rightarrow> 'w s3_client \<Rightarrow> string \<Rightarrow> (boto_exn, unit, 'w) prog" where
  "delete_bucket pol s3_client bucket_name =
     exponential_backoff pol 120 [] (delete_bucket_wrapped s3_client bucket_name)"

text \<open>
  \<^verbatim>\<open>destroy_bucket\<close> (lines 101-169), block by block. The local variable
  \<^verbatim>\<open>required_versioning\<close> is assigned on one branch only; \<open>None\<close> is the unbound variable,
  and reading it raises. \<^verbatim>\<open>if required_versioning:\<close> tests that the string is not empty.
\<close>

definition suspend_versioning ::
  "retry_policy \<Rightarrow> 'w s3_client \<Rightarrow> string \<Rightarrow> (halt, string option, 'w) prog" where
  "suspend_versioning pol s3_client name =
     seq (try_except (get_bucket_versioning pol s3_client name)
            (fail_json_aws_on ''Failed to get bucket versioning''))
       (\<lambda>versioning_status.
          (case (if versioning_status = Some ''Enabled'' then Some ''Suspended'' else None) of
             None \<Rightarrow> raise (UnboundLocalError ''required_versioning'')
           | Some required_versioning \<Rightarrow>
               seq (if required_versioning \<noteq> []
                    then try_except (put_bucket_versioning pol s3_client name required_versioning)
                           (fail_json_aws_on ''Failed to update bucket versioning'')
                    else ret ())
                 (\<lambda>_. wait_versioning_is_applied pol s3_client name required_versioning)))"

text \<open>Lines 134-150: every delete marker, then every version, of each page. No \<^verbatim>\<open>try\<close>.\<close>

definition delete_version :: "'w s3_client \<Rightarrow> string \<Rightarrow> string \<times> string \<Rightarrow> (halt, unit, 'w) prog" where
  "delete_version s3_client name entry =
     (case entry of (key, versionId) \<Rightarrow>
        try_except (issue (DeleteObject name key (Some versionId))
                      (s3_delete_object s3_client name key (Some versionId)))
          Uncaught)"

definition purge_versions_page ::
  "'w s3_client \<Rightarrow> string \<Rightarrow> versions_page \<Rightarrow> (halt, unit, 'w) prog" where
  "purge_versions_page s3_client name page =
     seq (case DeleteMarkers page of
            None \<Rightarrow> ret ()
          | Some delete_markers \<Rightarrow> for_each (delete_version s3_client name) delete_markers)
       (\<lambda>_. case Versions page of
            None \<Rightarrow> ret ()
          | Some versions \<Rightarrow> for_each (delete_version s3_client name) versions)"

definition purge_versions :: "'w s3_client \<Rightarrow> string \<Rightarrow> (halt, unit, 'w) prog" where
  "purge_versions s3_client name w =
     for_pages (ListObjectVersions name) (purge_versions_page s3_client name)
       (s3_list_object_versions s3_client name w) w"

text \<open>
  Lines 152-159: the call \<^verbatim>\<open>s3_client.delete_object(Bucket=bucket_name, ...)\<close> reads
  \<^verbatim>\<open>bucket_name\<close>, which is neither a local of \<^verbatim>\<open>destroy_bucket\<close> nor a global of the
  module, so evaluating the arguments raises before the request is made.
\<close>

definition purge_objects_page :: "objects_page \<Rightarrow> (halt, unit, 'w) prog" where
  "purge_objects_page page =
     (case Contents page of
        None \<Rightarrow> ret ()
      | Some contents \<Rightarrow> for_each (\<lambda>content. raise (NameError ''bucket_name'')) contents)"

definition purge_objects :: "'w s3_client \<Rightarrow> string \<Rightarrow> (halt, unit, 'w) prog" where
  "purge_objects s3_client name w =
     for_pages (ListObjectsV2 name) purge_objects_page
       (s3_list_objects_v2 s3_client name w) w"

text \<open>Lines 161-167: the bucket delete and the wait, under one \<^verbatim>\<open>try\<close>.\<close>

definition delete_failed :: "boto_exn \<Rightarrow> halt" where
  "delete_failed e =
     (if is_WaiterError e
      then Fail_json_aws e ''An error occurred waiting for the bucket to be deleted.''
      else fail_json_aws_on ''Failed to delete bucket'' e)"

definition delete_and_wait :: "retry_policy \<Rightarrow> 'w s3_client \<Rightarrow> string \<Rightarrow> (halt, unit, 'w) prog" where
  "delete_and_wait pol s3_client name =
     try_except
       (seq (delete_bucket pol s3_client name)
          (\<lambda>_. issue (WaitBucketNotExists name) (s3_wait_bucket_not_exists s3_client name)))
       delete_failed"

definition presence_failed :: "boto_exn \<Rightarrow> halt" where
  "presence_failed e =
     (case e of
        EndpointConnectionError text \<Rightarrow> Fail_json_aws e (''Invalid endpoint provided: '' @ text)
      | _ \<Rightarrow> fail_json_aws_on ''Failed to check bucket presence'' e)"

text \<open>The body of \<^verbatim>\<open>if force:\<close> (lines 115-159).\<close>

definition force_purge :: "retry_policy \<Rightarrow> 'w s3_client \<Rightarrow> string \<Rightarrow> (halt, unit, 'w) prog" where
  "force_purge pol s3_client name =
     seq (suspend_versioning pol s3_client name)
       (\<lambda>_. seq (purge_versions s3_client name)
          (\<lambda>_. purge_objects s3_client name))"

definition destroy_bucket ::
  "retry_policy \<Rightarrow> 'w s3_client \<Rightarrow> bool \<Rightarrow> string \<Rightarrow> (halt, unit, 'w) prog" where
  "destroy_bucket pol s3_client force name =
     seq (try_except (bucket_exists s3_client name) presence_failed)
       (\<lambda>bucket_is_present.
          if \<not> bucket_is_present then raise (Exit_json False)
          else
            seq (if force then force_purge pol s3_client name else ret ())
              (\<lambda>_. seq (delete_and_wait pol s3_client name)
                 (\<lambda>_. raise (Exit_json True))))"

section \<open>Reading the log\<close>

text \<open>
  The version-aware \<^verbatim>\<open>delete_object\<close> requests of a log, each with its
  \<^verbatim>\<open>(Bucket, Key, VersionId)\<close>, and the keys of its plain \<^verbatim>\<open>delete_object\<close> requests.
\<close>

fun deleted_version :: "event \<Rightarrow> (string \<times> string \<times> string) list" where
  "deleted_version (DeleteObject b key (Some versionId)) = [(b, key, versionId)]"
| "deleted_version ev = []"

definition version_deletes :: "event list \<Rightarrow> (string \<times> string \<times> string) list" where
  "version_deletes t = concat (map deleted_version t)"

fun deleted_object :: "event \<Rightarrow> string list" where
  "deleted_object (DeleteObject b key None) = [key]"
| "deleted_object ev = []"

definition plain_deletes :: "event list \<Rightarrow> string list" where
  "plain_deletes t = concat (map deleted_object t)"

definition entries :: "'a list option \<Rightarrow> 'a list" where
  "entries field = (case field of None \<Rightarrow> [] | Some xs \<Rightarrow> xs)"

fun is_request :: "event \<Rightarrow> bool" where
  "is_request (Sleep seconds) = False"
| "is_request (RetrySleep seconds) = False"
| "is_request ev = True"

fun is_sleep :: "event \<Rightarrow> bool" where
  "is_sleep (Sleep seconds) = True"
| "is_sleep ev = False"

fun is_exit :: "halt \<Rightarrow> bool" where
  "is_exit (Exit_json changed) = True"
| "is_exit h = False"

section \<open>The records of a listing\<close>





section \<open>Stores for the examples\<close>

text \<open>
  An in-memory store with the behaviour the module relies on: a bucket has a versioning
  status, delete markers, data versions and plain objects; it can be deleted only when it
  holds none of them; a request on a missing bucket answers \<^verbatim>\<open>NoSuchBucket\<close>. A listing is
  one page, without the keys that would be empty.
\<close>

record bucket =
  versioning :: "string option"
  delete_markers :: "(string \<times> string) list"
  versions :: "(string \<times> string) list"
  objects :: "string list"

type_synonym store = "(string \<times> bucket) list"

definition update_bucket :: "string \<Rightarrow> (bucket \<Rightarrow> bucket) \<Rightarrow> store \<Rightarrow> store" where
  "update_bucket name f w = map (\<lambda>(n, b). if n = name then (n, f b) else (n, b)) w"

definition on_bucket ::
  "string \<Rightarrow> store \<Rightarrow> (bucket \<Rightarrow> (boto_exn + 'a) \<times> store) \<Rightarrow> (boto_exn + 'a) \<times> store" where
  "on_bucket name w f =
     (case map_of w name of
        None \<Rightarrow> (Inl (ClientError ''NoSuchBucket''), w)
      | Some b \<Rightarrow> f b)"

definition if_any :: "'a list \<Rightarrow> 'a list option" where
  "if_any xs = (if xs = [] then None else Some xs)"

definition mem_client :: "store s3_client" where
  "mem_client = \<lparr>
     s3_list_buckets = (\<lambda>name w. (Inr (map fst w), w)),
     s3_get_bucket_versioning = (\<lambda>name w. on_bucket name w (\<lambda>b. (Inr (versioning b), w))),
     s3_put_bucket_versioning = (\<lambda>name status w. on_bucket name w
        (\<lambda>b. (Inr (), update_bucket name (\<lambda>b. b\<lparr>versioning := Some status\<rparr>) w))),
     s3_list_object_versions = (\<lambda>name w.
        case map_of w name of
          None \<Rightarrow> Raises (ClientError ''NoSuchBucket'')
        | Some b \<Rightarrow>
            Yield \<lparr>DeleteMarkers = if_any (delete_markers b), Versions = if_any (versions b)\<rparr>
              (\<lambda>w'. StopIteration)),
     s3_list_objects_v2 = (\<lambda>name w.
        case map_of w name of
          None \<Rightarrow> Raises (ClientError ''NoSuchBucket'')
        | Some b \<Rightarrow> Yield \<lparr>Contents = if_any (objects b)\<rparr> (\<lambda>w'. StopIteration)),
     s3_delete_object = (\<lambda>name key versionId w. on_bucket name w
        (\<lambda>b. (Inr (), update_bucket name
           (\<lambda>b. case versionId of
                  None \<Rightarrow> b\<lparr>objects := removeAll key (objects b)\<rparr>
                | Some v \<Rightarrow> b\<lparr>delete_markers := removeAll (key, v) (delete_markers b),
                             versions := removeAll (key, v) (versions b)\<rparr>) w))),
     s3_delete_bucket = (\<lambda>name w. on_bucket name w
        (\<lambda>b. if delete_markers b = [] \<and> versions b = [] \<and> objects b = []
             then (Inr (), filter (\<lambda>(n, b). n \<noteq> name) w)
             else (Inl (ClientError ''BucketNotEmpty''), w))),
     s3_wait_bucket_not_exists = (\<lambda>name w.
        if name \<in> set (map fst w) then (Inl WaiterError, w) else (Inr (), w))
   \<rparr>"

text \<open>
  A store of one empty bucket, whatever the name asked for, whose state is a pair of
  counters: while the first is positive every request is throttled (and the counter goes
  down); while the second is positive the versioning status still reads \<^verbatim>\<open>Enabled\<close>
  (and the counter goes down), after which it reads \<^verbatim>\<open>Suspended\<close>.
\<close>

definition throttled ::
  "nat \<times> nat \<Rightarrow> ((boto_exn + 'a) \<times> nat \<times> nat) \<Rightarrow> (boto_exn + 'a) \<times> nat \<times> nat" where
  "throttled w answer =
     (case w of (faults, lag) \<Rightarrow>
        if 0 < faults then (Inl (ClientError ''Throttling''), faults - 1, lag) else answer)"

definition slow_client :: "(nat \<times> nat) s3_client" where
  "slow_client = \<lparr>
     s3_list_buckets = (\<lambda>name w. throttled w (Inr [name], w)),
     s3_get_bucket_versioning = (\<lambda>name w. throttled w
        (if 0 < snd w then (Inr (Some ''Enabled''), fst w, snd w - 1)
         else (Inr (Some ''Suspended''), w))),
     s3_put_bucket_versioning = (\<lambda>name status w. throttled w (Inr (), w)),
     s3_list_object_versions = (\<lambda>name w.
        Yield \<lparr>DeleteMarkers = None, Versions = None\<rparr> (\<lambda>w'. StopIteration)),
     s3_list_objects_v2 = (\<lambda>name w. Yield \<lparr>Contents = None\<rparr> (\<lambda>w'. StopIteration)),
     s3_delete_object = (\<lambda>name key versionId w. throttled w (Inr (), w)),
     s3_delete_bucket = (\<lambda>name w. throttled w (Inr (), w)),
     s3_wait_bucket_not_exists = (\<lambda>name w. throttled w (Inr (), w))
   \<rparr>"



definition flaky_delete_client :: "(nat \<times> nat) s3_client" where
  "flaky_delete_client = slow_client\<lparr>s3_list_buckets := (\<lambda>name w. (Inr [name], w))\<rparr>"

text \<open>The in-memory store behind a service that answers every bucket delete as unavailable.\<close>

definition unavailable_client :: "store s3_client" where
  "unavailable_client =
     mem_client\<lparr>s3_delete_bucket := (\<lambda>name w. (Inl (ClientError ''ServiceUnavailable''), w))\<rparr>"

text \<open>
  A retry policy for the examples: ten retries, first delay 3, doubling, with throttling
  and service errors held transient.
\<close>

definition example_policy :: retry_policy where
  "example_policy = \<lparr>
     retries = 10, delay = 3, backoff = 2,
     base_found = (\<lambda>code. code \<in> set [''RequestLimitExceeded'', ''ServiceUnavailable'',
                                        ''InternalError'', ''Throttling''])
   \<rparr>"

definition no_retry :: retry_policy where
  "no_retry = \<lparr>retries = 0, delay = 3, backoff = 2, base_found = (\<lambda>code. False)\<rparr>"

text \<open>The bucket of the spec's scenario: versioning enabled, three versions, two markers.\<close>

definition b1 :: bucket where
  "b1 = \<lparr>versioning = Some ''Enabled'',
         delete_markers = [(''k1'', ''m1''), (''k2'', ''m2'')],
         versions = [(''k1'', ''v1''), (''k1'', ''v2''), (''k2'', ''v1'')],
         objects = []\<rparr>"

text \<open>What the in-memory store holds for a bucket name.\<close>

definition mem_present :: "store \<Rightarrow> string \<Rightarrow> bool" where
  "mem_present w name = (name \<in> set (map fst w))"

definition mem_records :: "store \<Rightarrow> string \<Rightarrow> (string \<times> string) list" where
  "mem_records w name =
     (case map_of w name of None \<Rightarrow> [] | Some b \<Rightarrow> delete_markers b @ versions b)"

definition mem_plain :: "store \<Rightarrow> string \<Rightarrow> string list" where
  "mem_plain w name = (case map_of w name of None \<Rightarrow> [] | Some b \<Rightarrow> objects b)"

definition mem_nonempty :: "store \<Rightarrow> string \<Rightarrow> bool" where
  "mem_nonempty w name = (mem_records w name \<noteq> [] \<or> mem_plain w name \<noteq> [])"

section \<open>The events each block of the workflow can log\<close>

fun versioning_event :: "event \<Rightarrow> bool" where
  "versioning_event (GetBucketVersioning b) = True"
| "versioning_event (PutBucketVersioning b s) = True"
| "versioning_event (Sleep n) = True"
| "versioning_event (RetrySleep n) = True"
| "versioning_event ev = False"

fun versions_purge_event :: "event \<Rightarrow> bool" where
  "versions_purge_event (ListObjectVersions b p) = True"
| "versions_purge_event (DeleteObject b k (Some v)) = True"
| "versions_purge_event ev = False"

fun objects_purge_event :: "event \<Rightarrow> bool" where
  "objects_purge_event (ListObjectsV2 b p) = True"
| "objects_purge_event ev = False"

fun deletion_event :: "event \<Rightarrow> bool" where
  "deletion_event (DeleteBucket b) = True"
| "deletion_event (WaitBucketNotExists b) = True"
| "deletion_event (RetrySleep n) = True"
| "deletion_event ev = False"

text \<open>
  The polls of a log: every poll sends one request, and one more after each pause of the
  retry decorator. The sleeps of a log are the module's own.
\<close>

fun is_get :: "event \<Rightarrow> bool" where
  "is_get (GetBucketVersioning b) = True"
| "is_get ev = False"

fun is_pause :: "event \<Rightarrow> bool" where
  "is_pause (RetrySleep seconds) = True"
| "is_pause ev = False"

definition polls :: "event list \<Rightarrow> nat" where
  "polls t = length (filter is_get t) - length (filter is_pause t)"

definition sleeps :: "event list \<Rightarrow> event list" where
  "sleeps t = filter is_sleep t"

section \<open>Basic facts about programs and logs\<close>

lemma seqE:
  assumes "seq m f w = (r, w', t)"
  obtains (raised) e where "m w = (Inl e, w', t)" and "r = Inl e"
  | (continued) a w1 t1 t2 where "m w = (Inr a, w1, t1)" and "f a w1 = (r, w', t2)" and "t = t1 @ t2"
  using assms by (auto simp: seq_def split: prod.splits sum.splits)

lemma try_exceptE:
  assumes "try_except m h w = (r, w', t)"
  obtains (caught) e where "m w = (Inl e, w', t)" and "r = Inl (h e)"
  | (passed) a where "m w = (Inr a, w', t)" and "r = Inr a"
  using assms by (auto simp: try_except_def split: prod.splits sum.splits)

lemma issue_log: "issue ev request w = (r, w', t) \<Longrightarrow> t = [ev] \<and> request w = (r, w')"
  by (auto simp: issue_def split: prod.splits)

lemma retry_func_log:
  assumes "\<And>w r w' t. f w = (r, w', t) \<Longrightarrow> list_all P t"
    and "\<And>d. P (RetrySleep d)"
  shows "retry_func found ds f w = (r, w', t) \<Longrightarrow> list_all P t"
proof (induction ds arbitrary: w r w' t)
  case Nil
  then show ?case using assms(1) by simp
next
  case (Cons d ds)
  obtain r1 w1 t1 where f: "f w = (r1, w1, t1)" by (cases "f w") auto
  have t1: "list_all P t1" using assms(1) f by blast
  show ?case
  proof (cases r1)
    case (Inr a)
    with Cons.prems f t1 show ?thesis by simp
  next
    case (Inl e)
    show ?thesis
    proof (cases "\<exists>code. e = ClientError code \<and> found code")
      case True
      then obtain code where e: "e = ClientError code" and fc: "found code" by blast
      obtain r2 w2 t2 where rec: "retry_func found ds f w1 = (r2, w2, t2)"
        by (cases "retry_func found ds f w1") auto
      have "list_all P t2" using Cons.IH rec by blast
      moreover have "t = t1 @ RetrySleep d # t2"
        using Cons.prems f Inl e fc rec by simp
      ultimately show ?thesis using t1 assms(2) by simp
    next
      case False
      then have "t = t1" using Cons.prems f Inl by (auto split: boto_exn.splits if_splits)
      then show ?thesis using t1 by simp
    qed
  qed
qed

lemma get_bucket_versioning_log:
  "get_bucket_versioning pol c name w = (r, w', t) \<Longrightarrow> list_all versioning_event t"
  unfolding get_bucket_versioning_def exponential_backoff_def
  by (erule retry_func_log[rotated 2]) (auto dest!: issue_log)

lemma put_bucket_versioning_log:
  "put_bucket_versioning pol c name s w = (r, w', t) \<Longrightarrow> list_all versioning_event t"
  unfolding put_bucket_versioning_def exponential_backoff_def
  by (erule retry_func_log[rotated 2]) (auto dest!: issue_log)

lemma poll_versioning_log:
  "poll_versioning pol c name req n w = (r, w', t) \<Longrightarrow> list_all versioning_event t"
proof (induction n arbitrary: w r w' t)
  case 0
  then show ?case by (simp add: raise_def)
next
  case (Suc n)
  from Suc.prems show ?case
    apply (simp only: poll_versioning.simps)
    apply (erule seqE)
     apply (erule try_exceptE)
      apply (simp add: get_bucket_versioning_log)
     apply simp
    apply (erule try_exceptE)
     apply simp
    apply (auto simp: ret_def sleep_def dest!: get_bucket_versioning_log Suc.IH elim!: seqE split: if_splits)
    done
qed

lemma suspend_versioning_log:
  "suspend_versioning pol c name w = (r, w', t) \<Longrightarrow> list_all versioning_event t"
  unfolding suspend_versioning_def wait_versioning_is_applied_def
  by (auto simp: ret_def raise_def elim!: seqE try_exceptE split: if_splits
      dest!: get_bucket_versioning_log put_bucket_versioning_log poll_versioning_log)


lemma version_deletes_simps [simp]:
  "version_deletes [] = []"
  "version_deletes (ev # t) = deleted_version ev @ version_deletes t"
  "version_deletes (t @ u) = version_deletes t @ version_deletes u"
  by (simp_all add: version_deletes_def)

lemma plain_deletes_simps [simp]:
  "plain_deletes [] = []"
  "plain_deletes (ev # t) = deleted_object ev @ plain_deletes t"
  "plain_deletes (t @ u) = plain_deletes t @ plain_deletes u"
  by (simp_all add: plain_deletes_def)

lemma versioning_event_facts:
  "list_all versioning_event t \<Longrightarrow>
     version_deletes t = [] \<and> plain_deletes t = []
     \<and> (\<forall>b. DeleteBucket b \<notin> set t) \<and> (\<forall>b p. ListObjectsV2 b p \<notin> set t)"
proof (induction t)
  case Nil
  then show ?case by simp
next
  case (Cons ev t)
  then show ?case by (cases ev) simp_all
qed

lemma versions_purge_event_facts:
  "list_all versions_purge_event t \<Longrightarrow>
     plain_deletes t = [] \<and> (\<forall>b. DeleteBucket b \<notin> set t) \<and> (\<forall>b p. ListObjectsV2 b p \<notin> set t)"
proof (induction t)
  case Nil
  then show ?case by simp
next
  case (Cons ev t)
  then show ?case
  proof (cases ev)
    case (DeleteObject x1 x2 x3)
    with Cons show ?thesis by (cases x3) simp_all
  qed simp_all
qed

lemma objects_purge_event_facts:
  "list_all objects_purge_event t \<Longrightarrow>
     version_deletes t = [] \<and> plain_deletes t = []
     \<and> (\<forall>b. DeleteBucket b \<notin> set t)"
proof (induction t)
  case Nil
  then show ?case by simp
next
  case (Cons ev t)
  then show ?case by (cases ev) simp_all
qed

lemma deletion_event_facts:
  "list_all deletion_event t \<Longrightarrow>
     version_deletes t = [] \<and> plain_deletes t = []
     \<and> (\<forall>b p. ListObjectsV2 b p \<notin> set t)"
proof (induction t)
  case Nil
  then show ?case by simp
next
  case (Cons ev t)
  then show ?case by (cases ev) simp_all
qed

subsection \<open>The purge loops\<close>

lemma delete_version_log:
  "delete_version c name entry w = (r, w', t) \<Longrightarrow>
     t = [DeleteObject name (fst entry) (Some (snd entry))]"
  by (cases entry) (auto simp: delete_version_def elim!: try_exceptE dest!: issue_log)

lemma for_each_delete_version:
  "for_each (delete_version c name) xs w = (r, w', t) \<Longrightarrow>
     list_all versions_purge_event t"
proof (induction xs arbitrary: w r w' t)
  case Nil
  then show ?case by (simp add: ret_def)
next
  case (Cons x xs)
  from Cons.prems show ?case
  proof (simp only: for_each.simps, elim seqE)
    fix e assume "delete_version c name x w = (Inl e, w', t)" "r = Inl e"
    then show ?thesis by (auto dest!: delete_version_log)
  next
    fix a w1 t1 t2
    assume 1: "delete_version c name x w = (Inr a, w1, t1)"
      and 2: "for_each (delete_version c name) xs w1 = (r, w', t2)" and 3: "t = t1 @ t2"
    from Cons.IH[OF 2] delete_version_log[OF 1] 3 show ?thesis
      by (cases x) auto
  qed
qed

lemma purge_versions_page_log:
  assumes "purge_versions_page c name page w = (r, w', t)"
  shows "list_all versions_purge_event t"
  using assms unfolding purge_versions_page_def
  by (auto simp: ret_def entries_def elim!: seqE split: option.splits
      dest!: for_each_delete_version)

lemma for_pages_YieldE:
  assumes "for_pages request body (Yield page rest) w = (r, w', t)"
  obtains (body_raised) h t1 where "body page w = (Inl h, w', t1)" and "r = Inl h"
      and "t = request (Inr page) # t1"
  | (next_page) w1 t1 t2 where "body page w = (Inr (), w1, t1)"
      and "for_pages request body (rest w1) w1 = (r, w', t2)"
      and "t = request (Inr page) # t1 @ t2"
  using assms by (auto simp: seq_def split: prod.splits sum.splits)

lemma for_pages_versions:
  "for_pages (ListObjectVersions name) (purge_versions_page c name) it w = (r, w', t) \<Longrightarrow>
     list_all versions_purge_event t"
proof (induction it arbitrary: w r w' t)
  case StopIteration
  then show ?case by (simp add: ret_def)
next
  case (Raises e)
  then show ?case by auto
next
  case (Yield page rest)
  from Yield.prems show ?case
  proof (cases rule: for_pages_YieldE)
    case (body_raised h t1)
    then show ?thesis by (auto dest!: purge_versions_page_log)
  next
    case (next_page w1 t1 t2)
    have "rest w1 \<in> range rest" by simp
    from Yield.IH[OF this next_page(2)] purge_versions_page_log[OF next_page(1)] next_page(3)
    show ?thesis by auto
  qed
qed

lemma purge_versions_log:
  "purge_versions c name w = (r, w', t) \<Longrightarrow>
     list_all versions_purge_event t"
  unfolding purge_versions_def by (rule for_pages_versions)

lemma purge_objects_page_result:
  "purge_objects_page page w = (r, w', t) \<Longrightarrow>
     t = [] \<and> w' = w
     \<and> (entries (Contents page) = [] \<longrightarrow> r = Inr ())
     \<and> (entries (Contents page) \<noteq> [] \<longrightarrow> r = Inl (NameError ''bucket_name''))"
  unfolding purge_objects_page_def
  by (cases "Contents page"; cases "entries (Contents page)")
     (auto simp: entries_def ret_def raise_def seq_def)

lemma for_pages_objects:
  "for_pages (ListObjectsV2 name) purge_objects_page it w = (r, w', t) \<Longrightarrow>
     list_all objects_purge_event t \<and> w' = w
     \<and> (\<forall>page. ListObjectsV2 name (Inr page) \<in> set t \<and> entries (Contents page) \<noteq> []
           \<longrightarrow> r = Inl (NameError ''bucket_name'') \<and> last t = ListObjectsV2 name (Inr page))"
proof (induction it arbitrary: w r w' t)
  case StopIteration
  then show ?case by (simp add: ret_def)
next
  case (Raises e)
  then show ?case by auto
next
  case (Yield page rest)
  from Yield.prems show ?case
  proof (cases rule: for_pages_YieldE)
    case (body_raised h t1)
    then show ?thesis by (auto dest!: purge_objects_page_result)
  next
    case (next_page w1 t1 t2)
    have "rest w1 \<in> range rest" by simp
    from Yield.IH[OF this next_page(2)] purge_objects_page_result[OF next_page(1)] next_page(3)
    show ?thesis by auto
  qed
qed

lemma purge_objects_log:
  "purge_objects c name w = (r, w', t) \<Longrightarrow>
     list_all objects_purge_event t \<and> w' = w
     \<and> (\<forall>page. ListObjectsV2 name (Inr page) \<in> set t \<and> entries (Contents page) \<noteq> []
           \<longrightarrow> r = Inl (NameError ''bucket_name'') \<and> last t = ListObjectsV2 name (Inr page))"
  unfolding purge_objects_def by (rule for_pages_objects)

subsection \<open>A block never ends the run with an exit of its own\<close>

lemma fail_json_aws_on_caught: "fail_json_aws_on msg e = Fail_json_aws e msg"
  by (cases e) (simp_all add: fail_json_aws_on_def)

lemma presence_failed_no_exit: "\<not> is_exit (presence_failed e)"
  by (cases e) (simp_all add: presence_failed_def fail_json_aws_on_caught)

lemma delete_failed_no_exit: "\<not> is_exit (delete_failed e)"
  by (simp add: delete_failed_def fail_json_aws_on_caught)

lemma poll_versioning_no_exit:
  "poll_versioning pol c name req n w = (Inl h, w', t) \<Longrightarrow> \<not> is_exit h"
proof (induction n arbitrary: w w' t)
  case 0
  then show ?case by (auto simp: raise_def)
next
  case (Suc n)
  from Suc.prems show ?case
    by (auto simp: ret_def sleep_def fail_json_aws_on_caught
        elim!: seqE try_exceptE split: if_splits dest: Suc.IH)
qed

lemma suspend_versioning_no_exit:
  "suspend_versioning pol c name w = (Inl h, w', t) \<Longrightarrow> \<not> is_exit h"
  unfolding suspend_versioning_def wait_versioning_is_applied_def
  by (auto simp: ret_def raise_def fail_json_aws_on_caught
      elim!: seqE try_exceptE split: if_splits dest: poll_versioning_no_exit)

lemma delete_version_no_exit:
  "delete_version c name entry w = (Inl h, w', t) \<Longrightarrow> \<not> is_exit h"
  by (cases entry) (auto simp: delete_version_def elim!: try_exceptE)

lemma for_each_delete_version_no_exit:
  "for_each (delete_version c name) xs w = (Inl h, w', t) \<Longrightarrow> \<not> is_exit h"
proof (induction xs arbitrary: w w' t)
  case Nil
  then show ?case by (simp add: ret_def)
next
  case (Cons x xs)
  from Cons.prems show ?case
    by (auto elim!: seqE dest: Cons.IH delete_version_no_exit)
qed

lemma purge_versions_page_no_exit:
  "purge_versions_page c name page w = (Inl h, w', t) \<Longrightarrow> \<not> is_exit h"
  unfolding purge_versions_page_def
  by (auto simp: ret_def elim!: seqE split: option.splits dest: for_each_delete_version_no_exit)

lemma for_pages_no_exit:
  assumes body: "\<And>page w h w' t. body page w = (Inl h, w', t) \<Longrightarrow> \<not> is_exit h"
  shows "for_pages request body it w = (Inl h, w', t) \<Longrightarrow> \<not> is_exit h"
proof (induction it arbitrary: w w' t)
  case StopIteration
  then show ?case by (simp add: ret_def)
next
  case (Raises e)
  then show ?case by auto
next
  case (Yield page rest)
  from Yield.prems show ?case
  proof (cases rule: for_pages_YieldE)
    case (body_raised h' t1)
    then show ?thesis using body by auto
  next
    case (next_page w1 t1 t2)
    have "rest w1 \<in> range rest" by simp
    from Yield.IH[OF this next_page(2)] show ?thesis .
  qed
qed

lemma purge_objects_page_no_exit:
  "purge_objects_page page w = (Inl h, w', t) \<Longrightarrow> \<not> is_exit h"
  by (cases "entries (Contents page) = []") (auto dest!: purge_objects_page_result)

lemma force_purge_no_exit:
  "force_purge pol c name w = (Inl h, w', t) \<Longrightarrow> \<not> is_exit h"
  unfolding force_purge_def purge_versions_def purge_objects_def
  by (auto elim!: seqE dest: suspend_versioning_no_exit
      for_pages_no_exit[OF purge_versions_page_no_exit, rotated]
      for_pages_no_exit[OF purge_objects_page_no_exit, rotated])

lemma force_purge_log:
  assumes "force_purge pol c name w = (r, w', t)"
  shows "plain_deletes t = [] \<and> (\<forall>b. DeleteBucket b \<notin> set t)
     \<and> (\<forall>page. ListObjectsV2 name (Inr page) \<in> set t \<and> entries (Contents page) \<noteq> []
           \<longrightarrow> r = Inl (NameError ''bucket_name'') \<and> last t = ListObjectsV2 name (Inr page))"
  using assms unfolding force_purge_def
proof (elim seqE)
  fix e assume "suspend_versioning pol c name w = (Inl e, w', t)" "r = Inl e"
  then show ?thesis by (auto dest!: suspend_versioning_log versioning_event_facts)
next
  fix a w1 t1 t2 e
  assume "suspend_versioning pol c name w = (Inr a, w1, t1)"
    "purge_versions c name w1 = (Inl e, w', t2)" "r = Inl e" "t = t1 @ t2"
  then show ?thesis
    using versioning_event_facts[of t1] versions_purge_event_facts[of t2]
    by (auto dest!: suspend_versioning_log purge_versions_log)
next
  fix a w1 t1 t2 a' w2 t3 t4
  assume 1: "suspend_versioning pol c name w = (Inr a, w1, t1)"
    and 2: "purge_versions c name w1 = (Inr a', w2, t3)"
    and 3: "purge_objects c name w2 = (r, w', t4)" and 4: "t = t1 @ t2" "t2 = t3 @ t4"
  from suspend_versioning_log[OF 1] have v: "list_all versioning_event t1" .
  from purge_versions_log[OF 2] have p: "list_all versions_purge_event t3" .
  from purge_objects_log[OF 3] have ob: "list_all objects_purge_event t4"
    "\<forall>page. ListObjectsV2 name (Inr page) \<in> set t4 \<and> entries (Contents page) \<noteq> []
           \<longrightarrow> r = Inl (NameError ''bucket_name'') \<and> last t4 = ListObjectsV2 name (Inr page)"
    by auto
  show ?thesis
    using versioning_event_facts[OF v] versions_purge_event_facts[OF p]
      objects_purge_event_facts[OF ob(1)] ob(2) 4
    by (auto simp: last_append)
qed

subsection \<open>Deleting the bucket, and the shape of a run\<close>

lemma delete_bucket_wrapped_log:
  "delete_bucket_wrapped c name w = (r, w', t) \<Longrightarrow> t = [DeleteBucket name]"
  unfolding delete_bucket_wrapped_def
  by (auto simp: issue_def split: prod.splits sum.splits boto_exn.splits if_splits)

lemma retry_func_first:
  assumes "\<And>w r w' t. f w = (r, w', t) \<Longrightarrow> t = [ev]"
    and "retry_func found ds f w = (r, w', t)"
  shows "\<exists>t'. t = ev # t'"
proof (cases ds)
  case Nil
  with assms(2) have "f w = (r, w', t)" by simp
  then show ?thesis using assms(1) by blast
next
  case (Cons d ds')
  obtain r1 w1 t1 where f: "f w = (r1, w1, t1)" by (cases "f w") auto
  then have "t1 = [ev]" using assms(1) by blast
  with assms(2) Cons f show ?thesis
    by (auto split: sum.splits boto_exn.splits if_splits prod.splits)
qed

lemma delete_bucket_log:
  assumes "delete_bucket pol c name w = (r, w', t)"
  shows "list_all deletion_event t \<and> (\<exists>t'. t = DeleteBucket name # t')"
proof
  show "list_all deletion_event t"
    using assms unfolding delete_bucket_def exponential_backoff_def
    by (rule retry_func_log[rotated 2]) (auto dest!: delete_bucket_wrapped_log)
  show "\<exists>t'. t = DeleteBucket name # t'"
    using assms unfolding delete_bucket_def exponential_backoff_def
    by (rule retry_func_first[rotated]) (auto dest!: delete_bucket_wrapped_log)
qed

lemma delete_and_wait_log:
  assumes "delete_and_wait pol c name w = (r, w', t)"
  shows "list_all deletion_event t \<and> (\<exists>t'. t = DeleteBucket name # t')"
  using assms unfolding delete_and_wait_def
  by (auto elim!: try_exceptE seqE dest!: delete_bucket_log issue_log)

lemma delete_and_wait_no_exit:
  "delete_and_wait pol c name w = (Inl h, w', t) \<Longrightarrow> \<not> is_exit h"
  unfolding delete_and_wait_def by (auto elim!: try_exceptE simp: delete_failed_no_exit)

lemma delete_and_wait_confirmed:
  "delete_and_wait pol c name w = (Inr u, w', t) \<Longrightarrow>
     \<exists>w0. s3_wait_bucket_not_exists c name w0 = (Inr (), w')"
  unfolding delete_and_wait_def by (auto elim!: try_exceptE seqE dest!: issue_log)

lemma bucket_exists_result:
  "bucket_exists c name w = (r, w', t) \<Longrightarrow>
     t = [ListBuckets name]
     \<and> (case s3_list_buckets c name w of
           (Inl e, w1) \<Rightarrow> r = Inl e \<and> w' = w1
         | (Inr bs, w1) \<Rightarrow> r = Inr (name \<in> set bs) \<and> w' = w1)"
  unfolding bucket_exists_def
  by (auto simp: issue_def seq_def ret_def list_ex_iff split: prod.splits sum.splits)

lemma destroy_bucketE:
  assumes "destroy_bucket pol c force name w = (r, w', t)"
  obtains (probe_failed) e where "bucket_exists c name w = (Inl e, w', t)"
      and "r = Inl (presence_failed e)"
  | (absent) "bucket_exists c name w = (Inr False, w', t)" and "r = Inl (Exit_json False)"
  | (purge_failed) w1 t1 h t2 where "bucket_exists c name w = (Inr True, w1, t1)"
      and "force" and "force_purge pol c name w1 = (Inl h, w', t2)"
      and "r = Inl h" and "t = t1 @ t2"
  | (delete_failed) w1 t1 w2 t2 h t3 where "bucket_exists c name w = (Inr True, w1, t1)"
      and "(if force then force_purge pol c name else ret ()) w1 = (Inr (), w2, t2)"
      and "delete_and_wait pol c name w2 = (Inl h, w', t3)"
      and "r = Inl h" and "t = t1 @ t2 @ t3"
  | (deleted) w1 t1 w2 t2 t3 where "bucket_exists c name w = (Inr True, w1, t1)"
      and "(if force then force_purge pol c name else ret ()) w1 = (Inr (), w2, t2)"
      and "delete_and_wait pol c name w2 = (Inr (), w', t3)"
      and "r = Inl (Exit_json True)" and "t = t1 @ t2 @ t3"
proof -
  from assms have "seq (try_except (bucket_exists c name) presence_failed)
       (\<lambda>bucket_is_present.
          if \<not> bucket_is_present then raise (Exit_json False)
          else seq (if force then force_purge pol c name else ret ())
                 (\<lambda>_. seq (delete_and_wait pol c name) (\<lambda>_. raise (Exit_json True)))) w
     = (r, w', t)"
    unfolding destroy_bucket_def .
  then show thesis
  proof (cases rule: seqE)
    case (raised h)
    from raised(1) show ?thesis
      by (cases rule: try_exceptE) (use raised(2) probe_failed in auto)
  next
    case (continued present w1 t1 t2)
    from continued(1) have be: "bucket_exists c name w = (Inr present, w1, t1)"
      by (auto elim: try_exceptE)
    show ?thesis
    proof (cases present)
      case False
      with continued(2,3) be show ?thesis by (intro absent) (auto simp: raise_def)
    next
      case True
      with continued(2)
      have "seq (if force then force_purge pol c name else ret ())
              (\<lambda>_. seq (delete_and_wait pol c name) (\<lambda>_. raise (Exit_json True))) w1
            = (r, w', t2)"
        by simp
      then show ?thesis
      proof (cases rule: seqE)
        case (raised h)
        then have "force" by (auto simp: ret_def split: if_splits)
        with raised continued(3) be True show ?thesis by (intro purge_failed) auto
      next
        case inner: (continued u w2 t2a t2b)
        from inner(2) show ?thesis
        proof (cases rule: seqE)
          case (raised h)
          with inner(1,3) continued(3) be True show ?thesis
            by (intro delete_failed) auto
        next
          case last: (continued u' w3 t3 t4)
          with inner(1,3) continued(3) be True show ?thesis
            by (intro deleted) (auto simp: raise_def)
        qed
      qed
    qed
  qed
qed

lemma exit_True_confirmed:
  assumes "destroy_bucket pol c force name w = (Inl (Exit_json True), w', t)"
  shows "\<exists>w0. s3_wait_bucket_not_exists c name w0 = (Inr (), w')"
  using assms
proof (cases rule: destroy_bucketE)
  case (probe_failed e)
  then show ?thesis using presence_failed_no_exit[of e] by (metis is_exit.simps(1) sum.inject(1))
next
  case absent
  then show ?thesis by simp
next
  case (purge_failed w1 t1 h t2)
  then show ?thesis using force_purge_no_exit[OF purge_failed(3)] by auto
next
  case (delete_failed w1 t1 w2 t2 h t3)
  then show ?thesis using delete_and_wait_no_exit[OF delete_failed(3)] by auto
next
  case (deleted w1 t1 w2 t2 t3)
  from delete_and_wait_confirmed[OF deleted(3)] show ?thesis .
qed

section \<open>The in-memory store\<close>

lemma b1_forced_run:
  "destroy_bucket example_policy mem_client True ''b1'' [(''b1'', b1)] =
    (Inl (Exit_json True), [],
     [ListBuckets ''b1'', GetBucketVersioning ''b1'',
      PutBucketVersioning ''b1'' ''Suspended'', GetBucketVersioning ''b1'',
      ListObjectVersions ''b1''
       (Inr \<lparr>DeleteMarkers = Some [(''k1'', ''m1''), (''k2'', ''m2'')],
               Versions = Some [(''k1'', ''v1''), (''k1'', ''v2''), (''k2'', ''v1'')]\<rparr>),
      DeleteObject ''b1'' ''k1'' (Some ''m1''),
      DeleteObject ''b1'' ''k2'' (Some ''m2''),
      DeleteObject ''b1'' ''k1'' (Some ''v1''),
      DeleteObject ''b1'' ''k1'' (Some ''v2''),
      DeleteObject ''b1'' ''k2'' (Some ''v1''),
      ListObjectsV2 ''b1'' (Inr \<lparr>Contents = None\<rparr>), DeleteBucket ''b1'',
      WaitBucketNotExists ''b1''])"
  by code_simp

lemma mem_waiter_confirms:
  "s3_wait_bucket_not_exists mem_client name w0 = (Inr (), w1) \<Longrightarrow> \<not> mem_present w1 name"
  by (auto simp: mem_client_def mem_present_def split: if_splits)

lemma mem_absent_holds_nothing:
  "\<not> mem_present w name \<Longrightarrow> mem_records w name = [] \<and> mem_plain w name = []"
proof -
  assume "\<not> mem_present w name"
  then have "map_of w name = None" by (simp add: mem_present_def map_of_eq_None_iff)
  then show ?thesis by (simp add: mem_records_def mem_plain_def)
qed

lemma mem_list_buckets: "s3_list_buckets mem_client name w = (Inr (map fst w), w)"
  by (simp add: mem_client_def)

section \<open>A bucket that does not exist\<close>

text \<open>
  C7: when the listing of the existence probe answers without the bucket's name, the run
  ends with \<^verbatim>\<open>changed=False\<close>, and the probe is the only request it has sent: no
  versioning request, no \<^verbatim>\<open>delete_object\<close>, no \<^verbatim>\<open>delete_bucket\<close>. The store is in
  the state the probe left it in.
\<close>

theorem absent_bucket_untouched:
  assumes "s3_list_buckets c name w = (Inr bs, w1)" and "name \<notin> set bs"
  shows "destroy_bucket pol c force name w = (Inl (Exit_json False), w1, [ListBuckets name])"
  using assms
  by (simp add: destroy_bucket_def bucket_exists_def seq_def try_except_def issue_def ret_def
      raise_def list_ex_iff)

theorem absent_bucket_untouched_witness:
  "s3_list_buckets mem_client ''b2'' [(''b1'', b1)] = (Inr [''b1''], [(''b1'', b1)])
   \<and> ''b2'' \<notin> set [''b1'']
   \<and> destroy_bucket example_policy mem_client True ''b2'' [(''b1'', b1)]
       = (Inl (Exit_json False), [(''b1'', b1)], [ListBuckets ''b2''])"
proof -
  have listing: "s3_list_buckets mem_client ''b2'' [(''b1'', b1)] = (Inr [''b1''], [(''b1'', b1)])"
    by (simp add: mem_list_buckets)
  have missing: "''b2'' \<notin> set [''b1'']" by simp
  from absent_bucket_untouched[OF listing missing, of example_policy True] listing missing
  show ?thesis by simp
qed

section \<open>What a successful forced run leaves behind\<close>

text \<open>
  C2: a run with \<^verbatim>\<open>force=True\<close> that ends with \<^verbatim>\<open>changed=True\<close> ends in a state that
  the \<^verbatim>\<open>bucket_not_exists\<close> waiter has confirmed. So for every store whose waiter returns
  only when the bucket is absent (\<open>present\<close>), and in which an absent bucket holds no
  version records (\<open>records\<close>) and no plain objects (\<open>plain\<close>), the bucket no longer exists
  and both sets are empty.
\<close>

theorem forced_decommission_leaves_nothing:
  assumes run: "destroy_bucket pol c True name w = (Inl (Exit_json True), w', t)"
    and waiter: "\<And>w0 w1. s3_wait_bucket_not_exists c name w0 = (Inr (), w1) \<Longrightarrow> \<not> present w1 name"
    and gone: "\<And>w1. \<not> present w1 name \<Longrightarrow> records w1 name = [] \<and> plain w1 name = []"
  shows "\<not> present w' name \<and> records w' name = [] \<and> plain w' name = []"
proof -
  from exit_True_confirmed[OF run] obtain w0
    where "s3_wait_bucket_not_exists c name w0 = (Inr (), w')" ..
  then have "\<not> present w' name" by (rule waiter)
  then show ?thesis using gone by blast
qed

theorem forced_decommission_leaves_nothing_witness:
  "fst (destroy_bucket example_policy mem_client True ''b1'' [(''b1'', b1)])
     = Inl (Exit_json True)
   \<and> \<not> mem_present
        (fst (snd (destroy_bucket example_policy mem_client True ''b1'' [(''b1'', b1)]))) ''b1''
   \<and> mem_records
        (fst (snd (destroy_bucket example_policy mem_client True ''b1'' [(''b1'', b1)]))) ''b1''
       = []
   \<and> mem_plain
        (fst (snd (destroy_bucket example_policy mem_client True ''b1'' [(''b1'', b1)]))) ''b1''
       = []"
proof -
  have "\<not> mem_present [] ''b1'' \<and> mem_records [] ''b1'' = [] \<and> mem_plain [] ''b1'' = []"
    by (rule forced_decommission_leaves_nothing[OF b1_forced_run mem_waiter_confirms
          mem_absent_holds_nothing])
  then show ?thesis by (simp add: b1_forced_run)
qed

section \<open>Running the workflow twice\<close>

text \<open>
  C8: if the bucket is listed at the start and the first run ends with \<^verbatim>\<open>exit_json\<close>, it
  reports \<^verbatim>\<open>changed=True\<close>; and on a store whose listing no longer shows a bucket that
  the waiter has confirmed absent, the second run, started where the first ended, reports
  \<^verbatim>\<open>changed=False\<close> after the existence probe alone.
\<close>

theorem decommission_twice:
  assumes first: "destroy_bucket pol c force name w = (Inl (Exit_json changed), w1, t1)"
    and exists: "s3_list_buckets c name w = (Inr bs, w0)" "name \<in> set bs"
    and store: "\<And>wa wb. s3_wait_bucket_not_exists c name wa = (Inr (), wb) \<Longrightarrow>
        \<exists>bs' wc. s3_list_buckets c name wb = (Inr bs', wc) \<and> name \<notin> set bs'"
  shows "changed \<and> (\<exists>w2. destroy_bucket pol c force name w1
            = (Inl (Exit_json False), w2, [ListBuckets name]))"
proof -
  have ch: "changed"
    using first
  proof (cases rule: destroy_bucketE)
    case (probe_failed e)
    then show ?thesis using presence_failed_no_exit[of e] by (metis is_exit.simps(1) sum.inject(1))
  next
    case absent
    then show ?thesis using exists by (auto dest!: bucket_exists_result)
  next
    case (purge_failed w1 t1 h t2)
    then show ?thesis using force_purge_no_exit[OF purge_failed(3)] by auto
  next
    case (delete_failed w1 t1 w2 t2 h t3)
    then show ?thesis using delete_and_wait_no_exit[OF delete_failed(3)] by auto
  next
    case (deleted w1 t1 w2 t2 t3)
    then show ?thesis by simp
  qed
  with first have "destroy_bucket pol c force name w = (Inl (Exit_json True), w1, t1)" by simp
  from exit_True_confirmed[OF this] obtain wa
    where "s3_wait_bucket_not_exists c name wa = (Inr (), w1)" ..
  from store[OF this] obtain bs' wc
    where "s3_list_buckets c name w1 = (Inr bs', wc)" "name \<notin> set bs'" by blast
  then have "destroy_bucket pol c force name w1 = (Inl (Exit_json False), wc, [ListBuckets name])"
    by (simp add: destroy_bucket_def bucket_exists_def seq_def try_except_def issue_def ret_def
      raise_def list_ex_iff)
  with ch show ?thesis by blast
qed

theorem decommission_twice_witness:
  "s3_list_buckets mem_client ''b1'' [(''b1'', b1)] = (Inr [''b1''], [(''b1'', b1)])
   \<and> ''b1'' \<in> set [''b1'']
   \<and> fst (destroy_bucket example_policy mem_client True ''b1'' [(''b1'', b1)])
       = Inl (Exit_json True)
   \<and> fst (destroy_bucket example_policy mem_client True ''b1''
        (fst (snd (destroy_bucket example_policy mem_client True ''b1'' [(''b1'', b1)]))))
       = Inl (Exit_json False)
   \<and> snd (snd (destroy_bucket example_policy mem_client True ''b1''
        (fst (snd (destroy_bucket example_policy mem_client True ''b1'' [(''b1'', b1)])))))
       = [ListBuckets ''b1'']"
proof -
  have listing: "s3_list_buckets mem_client ''b1'' [(''b1'', b1)] = (Inr [''b1''], [(''b1'', b1)])"
    by (simp add: mem_list_buckets)
  have there: "''b1'' \<in> set [''b1'']" by simp
  have "True \<and> (\<exists>w2. destroy_bucket example_policy mem_client True ''b1'' []
              = (Inl (Exit_json False), w2, [ListBuckets ''b1'']))"
  proof (rule decommission_twice[OF b1_forced_run listing there])
    fix wa wb
    assume "s3_wait_bucket_not_exists mem_client ''b1'' wa = (Inr (), wb)"
    from mem_waiter_confirms[OF this]
    show "\<exists>bs' wc. s3_list_buckets mem_client ''b1'' wb = (Inr bs', wc) \<and> ''b1'' \<notin> set bs'"
      by (simp add: mem_list_buckets mem_present_def)
  qed
  then obtain w2 where "destroy_bucket example_policy mem_client True ''b1'' []
      = (Inl (Exit_json False), w2, [ListBuckets ''b1''])" by blast
  with listing there show ?thesis by (simp add: b1_forced_run)
qed

section \<open>The purge and the bucket delete\<close>












section \<open>The sweep of plain objects\<close>

lemma plain_object_run:
  "destroy_bucket example_policy mem_client True ''b1'' [(''b1'', b1\<lparr>objects := [''p'']\<rparr>)] =
    (Inl (NameError ''bucket_name''),
     [(''b1'', \<lparr>versioning = Some ''Suspended'', delete_markers = [], versions = [],
               objects = [''p'']\<rparr>)],
     [ListBuckets ''b1'', GetBucketVersioning ''b1'',
      PutBucketVersioning ''b1'' ''Suspended'', GetBucketVersioning ''b1'',
      ListObjectVersions ''b1''
       (Inr \<lparr>DeleteMarkers = Some [(''k1'', ''m1''), (''k2'', ''m2'')],
               Versions = Some [(''k1'', ''v1''), (''k1'', ''v2''), (''k2'', ''v1'')]\<rparr>),
      DeleteObject ''b1'' ''k1'' (Some ''m1''),
      DeleteObject ''b1'' ''k2'' (Some ''m2''),
      DeleteObject ''b1'' ''k1'' (Some ''v1''),
      DeleteObject ''b1'' ''k1'' (Some ''v2''),
      DeleteObject ''b1'' ''k2'' (Some ''v1''),
      ListObjectsV2 ''b1'' (Inr \<lparr>Contents = Some [''p'']\<rparr>)])"
  by code_simp

text \<open>
  C10: no run ever sends a plain \<^verbatim>\<open>delete_object\<close> request; and a run with
  \<^verbatim>\<open>force=True\<close> whose \<^verbatim>\<open>list_objects_v2\<close> listing returns a page with at least one
  object under \<^verbatim>\<open>Contents\<close> ends with the \<^verbatim>\<open>NameError\<close> on \<^verbatim>\<open>bucket_name\<close>, that page
  being the last event of its log.
\<close>

theorem fallback_sweep_raises:
  assumes "destroy_bucket pol c True name w = (r, w', t)"
  shows "plain_deletes t = []
    \<and> (\<forall>page key keys.
          ListObjectsV2 name (Inr page) \<in> set t \<and> Contents page = Some (key # keys)
          \<longrightarrow> r = Inl (NameError ''bucket_name'') \<and> last t = ListObjectsV2 name (Inr page))"
  using assms
proof (cases rule: destroy_bucketE)
  case (probe_failed e)
  then show ?thesis by (auto dest!: bucket_exists_result)
next
  case absent
  then show ?thesis by (auto dest!: bucket_exists_result)
next
  case (purge_failed w1 t1 h t2)
  from bucket_exists_result[OF purge_failed(1)] have "t1 = [ListBuckets name]" by simp
  with purge_failed(4,5) force_purge_log[OF purge_failed(3)] show ?thesis
    by (auto simp: entries_def)
next
  case (delete_failed w1 t1 w2 t2 h t3)
  from bucket_exists_result[OF delete_failed(1)] have t1: "t1 = [ListBuckets name]" by simp
  from delete_failed(2) have purge: "force_purge pol c name w1 = (Inr (), w2, t2)" by simp
  from delete_and_wait_log[OF delete_failed(3)] have "list_all deletion_event t3" by simp
  from deletion_event_facts[OF this] force_purge_log[OF purge] t1 delete_failed(5)
  show ?thesis by (auto simp: entries_def)
next
  case (deleted w1 t1 w2 t2 t3)
  from bucket_exists_result[OF deleted(1)] have t1: "t1 = [ListBuckets name]" by simp
  from deleted(2) have purge: "force_purge pol c name w1 = (Inr (), w2, t2)" by simp
  from delete_and_wait_log[OF deleted(3)] have "list_all deletion_event t3" by simp
  from deletion_event_facts[OF this] force_purge_log[OF purge] t1 deleted(5)
  show ?thesis by (auto simp: entries_def)
qed

theorem fallback_sweep_raises_witness:
  "fst (destroy_bucket example_policy mem_client True ''b1'' [(''b1'', b1\<lparr>objects := [''p'']\<rparr>)])
     = Inl (NameError ''bucket_name'')
   \<and> plain_deletes (snd (snd (destroy_bucket example_policy mem_client True ''b1''
        [(''b1'', b1\<lparr>objects := [''p'']\<rparr>)]))) = []
   \<and> mem_plain (fst (snd (destroy_bucket example_policy mem_client True ''b1''
        [(''b1'', b1\<lparr>objects := [''p'']\<rparr>)]))) ''b1'' = [''p'']"
  using fallback_sweep_raises[OF plain_object_run]
  by (simp add: plain_object_run mem_plain_def)

section \<open>A bucket whose versioning is not enabled\<close>

text \<open>
  C1: the specification wants a run with \<^verbatim>\<open>force=True\<close> on a bucket whose status is
  \<^verbatim>\<open>Suspended\<close> or unset to request no transition and to go on. The module requests
  none, and does not go on: when the bucket exists and the status read is not
  \<^verbatim>\<open>Enabled\<close>, the run ends with the \<^verbatim>\<open>UnboundLocalError\<close> on
  \<^verbatim>\<open>required_versioning\<close>, after the probe and the read of the status and nothing else.
\<close>

theorem non_enabled_bucket_raises:
  assumes "bucket_exists c name w = (Inr True, w1, t1)"
    and "get_bucket_versioning pol c name w1 = (Inr status, w2, t2)"
    and "status \<noteq> Some ''Enabled''"
  shows "destroy_bucket pol c True name w
     = (Inl (UnboundLocalError ''required_versioning''), w2, t1 @ t2)"
  using assms
  by (simp add: destroy_bucket_def force_purge_def suspend_versioning_def seq_def
      try_except_def raise_def)

theorem non_enabled_bucket_raises_witness:
  "bucket_exists mem_client ''b1'' [(''b1'', b1\<lparr>versioning := Some ''Suspended''\<rparr>)]
     = (Inr True, [(''b1'', b1\<lparr>versioning := Some ''Suspended''\<rparr>)], [ListBuckets ''b1''])
   \<and> get_bucket_versioning example_policy mem_client ''b1''
        [(''b1'', b1\<lparr>versioning := Some ''Suspended''\<rparr>)]
     = (Inr (Some ''Suspended''), [(''b1'', b1\<lparr>versioning := Some ''Suspended''\<rparr>)],
        [GetBucketVersioning ''b1''])
   \<and> Some ''Suspended'' \<noteq> Some ''Enabled''
   \<and> destroy_bucket example_policy mem_client True ''b1''
        [(''b1'', b1\<lparr>versioning := Some ''Suspended''\<rparr>)]
     = (Inl (UnboundLocalError ''required_versioning''),
        [(''b1'', b1\<lparr>versioning := Some ''Suspended''\<rparr>)],
        [ListBuckets ''b1'', GetBucketVersioning ''b1''])"
proof -
  have probe: "bucket_exists mem_client ''b1'' [(''b1'', b1\<lparr>versioning := Some ''Suspended''\<rparr>)]
     = (Inr True, [(''b1'', b1\<lparr>versioning := Some ''Suspended''\<rparr>)], [ListBuckets ''b1''])"
    by code_simp
  have status: "get_bucket_versioning example_policy mem_client ''b1''
        [(''b1'', b1\<lparr>versioning := Some ''Suspended''\<rparr>)]
     = (Inr (Some ''Suspended''), [(''b1'', b1\<lparr>versioning := Some ''Suspended''\<rparr>)],
        [GetBucketVersioning ''b1''])"
    by code_simp
  have other: "Some ''Suspended'' \<noteq> Some ''Enabled''" by simp
  from non_enabled_bucket_raises[OF probe status other] probe status other
  show ?thesis by simp
qed

section \<open>An unforced run on a bucket that is not empty\<close>

lemma retry_func_persistent:
  assumes step: "\<And>wa. I wa \<Longrightarrow> \<exists>wb. f wa = (Inl e, wb, [ev]) \<and> I wb"
  shows "I w \<Longrightarrow> \<exists>w' t. retry_func found ds f w = (Inl e, w', t) \<and> I w'
            \<and> list_all (\<lambda>x. x = ev \<or> (\<exists>d. x = RetrySleep d)) t"
proof (induction ds arbitrary: w)
  case Nil
  from step[OF Nil] show ?case by auto
next
  case (Cons d ds)
  from step[OF Cons.prems] obtain wb where f: "f w = (Inl e, wb, [ev])" and wb: "I wb" by blast
  from Cons.IH[OF wb] obtain w' t where
    rec: "retry_func found ds f wb = (Inl e, w', t)" "I w'"
      "list_all (\<lambda>x. x = ev \<or> (\<exists>d. x = RetrySleep d)) t" by blast
  show ?case
  proof (cases "\<exists>code. e = ClientError code \<and> found code")
    case True
    with f rec show ?thesis by auto
  next
    case False
    with f wb show ?thesis by (cases e) auto
  qed
qed

lemma mem_refuses_nonempty:
  "mem_nonempty wa name \<Longrightarrow>
     \<exists>wb. s3_delete_bucket mem_client name wa = (Inl (ClientError ''BucketNotEmpty''), wb)
          \<and> mem_nonempty wb name"
  by (auto simp: mem_nonempty_def mem_records_def mem_plain_def mem_client_def on_bucket_def
      split: option.splits)

lemma b1_unforced_run:
  "destroy_bucket example_policy mem_client False ''b1'' [(''b1'', b1)] =
    (Inl (Fail_json_aws (ClientError ''BucketNotEmpty'') ''Failed to delete bucket''),
     [(''b1'', b1)], [ListBuckets ''b1'', DeleteBucket ''b1''])"
  by code_simp

text \<open>
  C6: a run with \<^verbatim>\<open>force=False\<close> on a listed bucket that the store refuses to delete
  while it is not empty (\<open>nonempty\<close>: it answers \<^verbatim>\<open>BucketNotEmpty\<close> and stays as it is)
  ends with \<^verbatim>\<open>fail_json_aws\<close> carrying that error, whatever the retry policy; it sends no
  \<^verbatim>\<open>delete_object\<close> request of either kind, and the bucket is still not empty.
\<close>

theorem unforced_run_surfaces_refusal:
  assumes run: "destroy_bucket pol c False name w = (r, w', t)"
    and listed: "s3_list_buckets c name w = (Inr bs, w1)" "name \<in> set bs"
    and nonempty: "nonempty w1"
    and enforced: "\<And>wa. nonempty wa \<Longrightarrow>
        \<exists>wb. s3_delete_bucket c name wa = (Inl (ClientError ''BucketNotEmpty''), wb) \<and> nonempty wb"
  shows "r = Inl (Fail_json_aws (ClientError ''BucketNotEmpty'') ''Failed to delete bucket'')
    \<and> version_deletes t = [] \<and> plain_deletes t = [] \<and> nonempty w'"
proof -
  have body: "\<exists>wb. delete_bucket_wrapped c name wa
      = (Inl (ClientError ''BucketNotEmpty''), wb, [DeleteBucket name]) \<and> nonempty wb"
    if "nonempty wa" for wa
    using enforced[OF that] by (auto simp: delete_bucket_wrapped_def issue_def)
  have probe: "bucket_exists c name w = (Inr True, w1, [ListBuckets name])"
    using listed by (simp add: bucket_exists_def seq_def issue_def ret_def list_ex_iff)
  from retry_func_persistent[of nonempty "delete_bucket_wrapped c name" _ _ w1, OF body nonempty]
  obtain w2 t2 where del: "delete_bucket pol c name w1 = (Inl (ClientError ''BucketNotEmpty''), w2, t2)"
    and w2: "nonempty w2"
    unfolding delete_bucket_def exponential_backoff_def by blast
  have "destroy_bucket pol c False name w
      = (Inl (Fail_json_aws (ClientError ''BucketNotEmpty'') ''Failed to delete bucket''), w2,
         ListBuckets name # t2)"
    using probe del
    by (simp add: destroy_bucket_def delete_and_wait_def seq_def try_except_def ret_def
        delete_failed_def fail_json_aws_on_def)
  with run have r: "r = Inl (Fail_json_aws (ClientError ''BucketNotEmpty'') ''Failed to delete bucket'')"
    and w': "w' = w2" and t: "t = ListBuckets name # t2" by simp_all
  from delete_bucket_log[OF del] have "list_all deletion_event t2" by simp
  from deletion_event_facts[OF this] r w' t w2 show ?thesis by simp
qed

theorem unforced_run_surfaces_refusal_witness:
  "mem_nonempty [(''b1'', b1)] ''b1''
   \<and> destroy_bucket example_policy mem_client False ''b1'' [(''b1'', b1)] =
      (Inl (Fail_json_aws (ClientError ''BucketNotEmpty'') ''Failed to delete bucket''),
       [(''b1'', b1)], [ListBuckets ''b1'', DeleteBucket ''b1''])
   \<and> version_deletes [ListBuckets ''b1'', DeleteBucket ''b1''] = []
   \<and> plain_deletes [ListBuckets ''b1'', DeleteBucket ''b1''] = []"
proof -
  have listing: "s3_list_buckets mem_client ''b1'' [(''b1'', b1)] = (Inr [''b1''], [(''b1'', b1)])"
    by (simp add: mem_list_buckets)
  have there: "''b1'' \<in> set [''b1'']" by simp
  have nonempty: "mem_nonempty [(''b1'', b1)] ''b1''"
    by (simp add: mem_nonempty_def mem_records_def b1_def)
  from unforced_run_surfaces_refusal[of example_policy mem_client "''b1''" "[(''b1'', b1)]"
      _ _ _ _ _ "\<lambda>w. mem_nonempty w ''b1''", OF b1_unforced_run listing there nonempty
      mem_refuses_nonempty]
    nonempty b1_unforced_run
  show ?thesis by simp
qed

section \<open>Waiting for the versioning status\<close>

lemma retry_func_success:
  "f w = (Inr a, w', t) \<Longrightarrow> retry_func found ds f w = (Inr a, w', t)"
  by (cases ds) simp_all

lemma retry_func_fatal:
  "f w = (Inl e, w', t) \<Longrightarrow> \<not> (\<exists>code. e = ClientError code \<and> found code) \<Longrightarrow>
     retry_func found ds f w = (Inl e, w', t)"
  by (cases ds; cases e) simp_all

lemma backoff_delays_first:
  "0 < retries pol \<Longrightarrow>
     backoff_delays pol max_delay
       = min (delay pol) max_delay
         # map (\<lambda>retry. min (delay pol * backoff pol ^ retry) max_delay) [1..<retries pol]"
  by (simp add: backoff_delays_def upt_conv_Cons)

lemma first_retry:
  assumes "0 < retries pol" and "f w = (Inl (ClientError code), w1, t1)"
    and "base_found pol code \<or> code \<in> set extra" and "f w1 = (Inr a, w2, t2)"
  shows "exponential_backoff pol max_delay extra f w
     = (Inr a, w2, t1 @ RetrySleep (min (delay pol) max_delay) # t2)"
  using assms unfolding exponential_backoff_def
  by (simp add: backoff_delays_first retry_func_success)

lemma retry_func_counts:
  assumes one: "\<And>w r w' t. f w = (r, w', t) \<Longrightarrow> t = [GetBucketVersioning b]"
  shows "retry_func found ds f w = (r, w', t) \<Longrightarrow>
     length (filter is_get t) = Suc (length (filter is_pause t)) \<and> filter is_sleep t = []"
proof (induction ds arbitrary: w r w' t)
  case Nil
  then have "t = [GetBucketVersioning b]" using one by simp
  then show ?case by simp
next
  case (Cons d ds)
  obtain r1 w1 t1 where f: "f w = (r1, w1, t1)" by (cases "f w") auto
  then have t1: "t1 = [GetBucketVersioning b]" using one by blast
  show ?case
  proof (cases "\<exists>code. r1 = Inl (ClientError code) \<and> found code")
    case True
    then obtain code where r1: "r1 = Inl (ClientError code)" and fc: "found code" by blast
    obtain r2 w2 t2 where rec: "retry_func found ds f w1 = (r2, w2, t2)"
      by (cases "retry_func found ds f w1") auto
    from Cons.prems f r1 fc rec have "t = t1 @ RetrySleep d # t2" by simp
    with Cons.IH[OF rec] t1 show ?thesis by simp
  next
    case False
    with Cons.prems f have "t = t1"
      by (cases r1) (auto split: boto_exn.splits if_splits)
    with t1 show ?thesis by simp
  qed
qed

lemma get_bucket_versioning_counts:
  "get_bucket_versioning pol c name w = (r, w', t) \<Longrightarrow>
     length (filter is_get t) = Suc (length (filter is_pause t)) \<and> filter is_sleep t = []"
  unfolding get_bucket_versioning_def exponential_backoff_def
  by (erule retry_func_counts[rotated]) (auto dest!: issue_log)

lemma poll_versioning_counts:
  "poll_versioning pol c name required n w = (r, w', t) \<Longrightarrow>
     filter is_sleep t = replicate (length (filter is_sleep t)) (Sleep 5)
     \<and> ((r = Inl (Fail_json ''Bucket versioning failed to apply in the excepted time'')
          \<and> length (filter is_sleep t) = n
          \<and> length (filter is_get t) = length (filter is_pause t) + n)
        \<or> (r = Inr (Some required) \<and> length (filter is_sleep t) < n
          \<and> length (filter is_get t) = length (filter is_pause t) + length (filter is_sleep t) + 1)
        \<or> ((\<exists>e. r = Inl (Fail_json_aws e ''Failed to get updated versioning for bucket''))
          \<and> length (filter is_sleep t) < n
          \<and> length (filter is_get t) = length (filter is_pause t) + length (filter is_sleep t) + 1))"
proof (induction n arbitrary: w r w' t)
  case 0
  then show ?case by (simp add: raise_def)
next
  case (Suc n)
  from Suc.prems
  have "seq (try_except (get_bucket_versioning pol c name)
            (fail_json_aws_on ''Failed to get updated versioning for bucket''))
       (\<lambda>versioning_status.
          if versioning_status \<noteq> Some required
          then seq (sleep 5) (\<lambda>_. poll_versioning pol c name required n)
          else ret versioning_status) w = (r, w', t)"
    by simp
  then show ?case
  proof (cases rule: seqE)
    case (raised h)
    from raised(1) obtain e where get: "get_bucket_versioning pol c name w = (Inl e, w', t)"
      and h: "h = fail_json_aws_on ''Failed to get updated versioning for bucket'' e"
      by (auto elim: try_exceptE)
    from get_bucket_versioning_counts[OF get] raised(2) h show ?thesis
      by (simp add: fail_json_aws_on_caught)
  next
    case (continued status w1 t1 t2)
    from continued(1) have get: "get_bucket_versioning pol c name w = (Inr status, w1, t1)"
      by (auto elim: try_exceptE)
    note c1 = get_bucket_versioning_counts[OF get]
    show ?thesis
    proof (cases "status = Some required")
      case True
      with continued(2,3) c1 show ?thesis by (simp add: ret_def)
    next
      case False
      with continued(2) obtain t3 where
        rec: "poll_versioning pol c name required n w1 = (r, w', t3)" and t2: "t2 = Sleep 5 # t3"
        by (auto simp: sleep_def elim!: seqE)
      from Suc.IH[OF rec] c1 continued(3) t2 show ?thesis
        by auto
    qed
  qed
qed

lemma poll_versioning_returns:
  assumes "k < n"
    and "\<And>i. i < k \<Longrightarrow>
        get_bucket_versioning pol c name (ws i) = (Inr (ss i), ws (Suc i), ts i)
        \<and> ss i \<noteq> Some required"
    and "get_bucket_versioning pol c name (ws k) = (Inr (Some required), wk, tk)"
  shows "poll_versioning pol c name required n (ws 0)
     = (Inr (Some required), wk, concat (map (\<lambda>i. ts i @ [Sleep 5]) [0..<k]) @ tk)"
  using assms
proof (induction k arbitrary: n ws ss ts)
  case 0
  then obtain m where n: "n = Suc m" by (cases n) auto
  from 0(3) show ?case
    by (simp add: n seq_def try_except_def ret_def)
next
  case (Suc k)
  then obtain m where n: "n = Suc m" and m: "k < m" by (cases n) auto
  from Suc.prems(2)[of 0]
  have first: "get_bucket_versioning pol c name (ws 0) = (Inr (ss 0), ws (Suc 0), ts 0)"
    "ss 0 \<noteq> Some required" by simp_all
  have rest: "poll_versioning pol c name required m (ws (Suc 0))
     = (Inr (Some required), wk, concat (map (\<lambda>i. ts (Suc i) @ [Sleep 5]) [0..<k]) @ tk)"
    using Suc.IH[of m "\<lambda>i. ws (Suc i)" "\<lambda>i. ss (Suc i)" "\<lambda>i. ts (Suc i)"] m
      Suc.prems(2,3) by simp
  show ?case
    using first rest
    by (simp add: n seq_def try_except_def sleep_def map_upt_Suc del: upt_Suc)
qed

lemma poll_versioning_raises:
  assumes "k < n"
    and "\<And>i. i < k \<Longrightarrow>
        get_bucket_versioning pol c name (ws i) = (Inr (ss i), ws (Suc i), ts i)
        \<and> ss i \<noteq> Some required"
    and "get_bucket_versioning pol c name (ws k) = (Inl e, wk, tk)"
  shows "poll_versioning pol c name required n (ws 0)
     = (Inl (Fail_json_aws e ''Failed to get updated versioning for bucket''), wk,
        concat (map (\<lambda>i. ts i @ [Sleep 5]) [0..<k]) @ tk)"
  using assms
proof (induction k arbitrary: n ws ss ts)
  case 0
  then obtain m where n: "n = Suc m" by (cases n) auto
  from 0(3) show ?case
    by (simp add: n seq_def try_except_def fail_json_aws_on_caught)
next
  case (Suc k)
  then obtain m where n: "n = Suc m" and m: "k < m" by (cases n) auto
  from Suc.prems(2)[of 0]
  have first: "get_bucket_versioning pol c name (ws 0) = (Inr (ss 0), ws (Suc 0), ts 0)"
    "ss 0 \<noteq> Some required" by simp_all
  have rest: "poll_versioning pol c name required m (ws (Suc 0))
     = (Inl (Fail_json_aws e ''Failed to get updated versioning for bucket''), wk,
        concat (map (\<lambda>i. ts (Suc i) @ [Sleep 5]) [0..<k]) @ tk)"
    using Suc.IH[of m "\<lambda>i. ws (Suc i)" "\<lambda>i. ss (Suc i)" "\<lambda>i. ts (Suc i)"] m
      Suc.prems(2,3) by simp
  show ?case
    using first rest
    by (simp add: n seq_def try_except_def sleep_def map_upt_Suc del: upt_Suc)
qed

lemma poll_versioning_times_out:
  assumes "\<And>i. i < n \<Longrightarrow>
        get_bucket_versioning pol c name (ws i) = (Inr (ss i), ws (Suc i), ts i)
        \<and> ss i \<noteq> Some required"
  shows "poll_versioning pol c name required n (ws 0)
     = (Inl (Fail_json ''Bucket versioning failed to apply in the excepted time''), ws n,
        concat (map (\<lambda>i. ts i @ [Sleep 5]) [0..<n]))"
  using assms
proof (induction n arbitrary: ws ss ts)
  case 0
  show ?case by (simp add: raise_def)
next
  case (Suc n)
  from Suc.prems[of 0]
  have first: "get_bucket_versioning pol c name (ws 0) = (Inr (ss 0), ws (Suc 0), ts 0)"
    "ss 0 \<noteq> Some required" by simp_all
  have rest: "poll_versioning pol c name required n (ws (Suc 0))
     = (Inl (Fail_json ''Bucket versioning failed to apply in the excepted time''), ws (Suc n),
        concat (map (\<lambda>i. ts (Suc i) @ [Sleep 5]) [0..<n]))"
    using Suc.IH[of "\<lambda>i. ws (Suc i)" "\<lambda>i. ss (Suc i)" "\<lambda>i. ts (Suc i)"] Suc.prems by simp
  show ?case
    using first rest
    by (simp add: seq_def try_except_def sleep_def map_upt_Suc del: upt_Suc)
qed

lemma slow_poll_enabled:
  "0 < n \<Longrightarrow> get_bucket_versioning example_policy slow_client ''b'' (0, n)
     = (Inr (Some ''Enabled''), (0, n - 1), [GetBucketVersioning ''b''])"
  unfolding get_bucket_versioning_def exponential_backoff_def
  by (rule retry_func_success) (simp add: issue_def slow_client_def throttled_def)

lemma slow_poll_suspended:
  "get_bucket_versioning example_policy slow_client ''b'' (0, 0)
     = (Inr (Some ''Suspended''), (0, 0), [GetBucketVersioning ''b''])"
  unfolding get_bucket_versioning_def exponential_backoff_def
  by (rule retry_func_success) (simp add: issue_def slow_client_def throttled_def)

text \<open>
  C4: \<^verbatim>\<open>wait_versioning_is_applied\<close> always returns or fails. It polls at most 12 times
  and every sleep of its own is of 5. Attempt by attempt: when the first \<open>k\<close> polls
  (\<open>k < 12\<close>) read another status and the next one reads the required status, it returns
  that status in the state that poll left, having slept 5 after each of the \<open>k\<close> polls and
  not after the last; when the next one raises instead, it fails with \<^verbatim>\<open>fail_json_aws\<close>
  there; and when all 12 polls read another status, it fails with the timeout message after
  12 polls and 12 sleeps, and polls no further.
\<close>

theorem wait_versioning_is_applied_bounded:
  assumes "wait_versioning_is_applied pol c name required w = (r, w', t)"
  shows "polls t \<le> 12
    \<and> sleeps t = replicate (length (sleeps t)) (Sleep 5)
    \<and> (case r of
          Inr status \<Rightarrow> status = Some required \<and> polls t = length (sleeps t) + 1
        | Inl h \<Rightarrow>
            (h = Fail_json ''Bucket versioning failed to apply in the excepted time''
               \<and> polls t = 12 \<and> length (sleeps t) = 12)
            \<or> ((\<exists>e. h = Fail_json_aws e ''Failed to get updated versioning for bucket'')
               \<and> polls t = length (sleeps t) + 1))
    \<and> (\<forall>k ws ss ts wk tk.
          k < 12 \<and> ws 0 = w
          \<and> (\<forall>i<k. get_bucket_versioning pol c name (ws i) = (Inr (ss i), ws (Suc i), ts i)
                   \<and> ss i \<noteq> Some required)
          \<and> get_bucket_versioning pol c name (ws k) = (Inr (Some required), wk, tk)
          \<longrightarrow> (r, w', t)
              = (Inr (Some required), wk, concat (map (\<lambda>i. ts i @ [Sleep 5]) [0..<k]) @ tk))
    \<and> (\<forall>k ws ss ts e wk tk.
          k < 12 \<and> ws 0 = w
          \<and> (\<forall>i<k. get_bucket_versioning pol c name (ws i) = (Inr (ss i), ws (Suc i), ts i)
                   \<and> ss i \<noteq> Some required)
          \<and> get_bucket_versioning pol c name (ws k) = (Inl e, wk, tk)
          \<longrightarrow> (r, w', t)
              = (Inl (Fail_json_aws e ''Failed to get updated versioning for bucket''), wk,
                 concat (map (\<lambda>i. ts i @ [Sleep 5]) [0..<k]) @ tk))
    \<and> (\<forall>ws ss ts.
          ws 0 = w
          \<and> (\<forall>i<12. get_bucket_versioning pol c name (ws i) = (Inr (ss i), ws (Suc i), ts i)
                    \<and> ss i \<noteq> Some required)
          \<longrightarrow> (r, w', t)
              = (Inl (Fail_json ''Bucket versioning failed to apply in the excepted time''),
                 ws 12, concat (map (\<lambda>i. ts i @ [Sleep 5]) [0..<12])))"
proof -
  from assms have run: "poll_versioning pol c name required 12 w = (r, w', t)"
    by (simp add: wait_versioning_is_applied_def)
  from poll_versioning_counts[OF run]
  have counts: "polls t \<le> 12 \<and> sleeps t = replicate (length (sleeps t)) (Sleep 5)
    \<and> (case r of
          Inr status \<Rightarrow> status = Some required \<and> polls t = length (sleeps t) + 1
        | Inl h \<Rightarrow>
            (h = Fail_json ''Bucket versioning failed to apply in the excepted time''
               \<and> polls t = 12 \<and> length (sleeps t) = 12)
            \<or> ((\<exists>e. h = Fail_json_aws e ''Failed to get updated versioning for bucket'')
               \<and> polls t = length (sleeps t) + 1))"
    unfolding polls_def sleeps_def by (elim conjE disjE exE) simp_all
  have returns: "(r, w', t)
      = (Inr (Some required), wk, concat (map (\<lambda>i. ts i @ [Sleep 5]) [0..<k]) @ tk)"
    if "k < 12" "ws 0 = w"
      "\<forall>i<k. get_bucket_versioning pol c name (ws i) = (Inr (ss i), ws (Suc i), ts i)
             \<and> ss i \<noteq> Some required"
      "get_bucket_versioning pol c name (ws k) = (Inr (Some required), wk, tk)"
    for k ws ss ts wk tk
    using poll_versioning_returns[of k 12 pol c name ws ss ts required wk tk] that run by simp
  have raises: "(r, w', t)
      = (Inl (Fail_json_aws e ''Failed to get updated versioning for bucket''), wk,
         concat (map (\<lambda>i. ts i @ [Sleep 5]) [0..<k]) @ tk)"
    if "k < 12" "ws 0 = w"
      "\<forall>i<k. get_bucket_versioning pol c name (ws i) = (Inr (ss i), ws (Suc i), ts i)
             \<and> ss i \<noteq> Some required"
      "get_bucket_versioning pol c name (ws k) = (Inl e, wk, tk)"
    for k ws ss ts e wk tk
    using poll_versioning_raises[of k 12 pol c name ws ss ts required e wk tk] that run by simp
  have times_out: "(r, w', t)
      = (Inl (Fail_json ''Bucket versioning failed to apply in the excepted time''),
         ws 12, concat (map (\<lambda>i. ts i @ [Sleep 5]) [0..<12]))"
    if "ws 0 = w"
      "\<forall>i<12. get_bucket_versioning pol c name (ws i) = (Inr (ss i), ws (Suc i), ts i)
              \<and> ss i \<noteq> Some required"
    for ws ss ts
    using poll_versioning_times_out[of 12 pol c name ws ss ts required] that run by simp
  from counts returns raises times_out show ?thesis by blast
qed

theorem wait_versioning_is_applied_bounded_witness:
  "wait_versioning_is_applied example_policy slow_client ''b'' ''Suspended'' (0, 11)
     = (Inr (Some ''Suspended''), (0, 0),
        concat (map (\<lambda>i. [GetBucketVersioning ''b''] @ [Sleep 5]) [0..<11])
        @ [GetBucketVersioning ''b''])
   \<and> wait_versioning_is_applied example_policy slow_client ''b'' ''Suspended'' (0, 12)
     = (Inl (Fail_json ''Bucket versioning failed to apply in the excepted time''), (0, 0),
        concat (map (\<lambda>i. [GetBucketVersioning ''b''] @ [Sleep 5]) [0..<12]))
   \<and> polls (snd (snd (wait_versioning_is_applied example_policy slow_client ''b''
        ''Suspended'' (0, 12)))) = 12
   \<and> length (sleeps (snd (snd (wait_versioning_is_applied example_policy slow_client ''b''
        ''Suspended'' (0, 12))))) = 12"
proof -
  let ?late = "wait_versioning_is_applied example_policy slow_client ''b'' ''Suspended'' (0, 11)"
  let ?never = "wait_versioning_is_applied example_policy slow_client ''b'' ''Suspended'' (0, 12)"
  have late: "?late = (fst ?late, fst (snd ?late), snd (snd ?late))" by simp
  have never: "?never = (fst ?never, fst (snd ?never), snd (snd ?never))" by simp
  have eleven: "\<forall>i<11. get_bucket_versioning example_policy slow_client ''b'' (0, 11 - i)
        = (Inr (Some ''Enabled''), (0, 11 - Suc i), [GetBucketVersioning ''b''])
      \<and> Some ''Enabled'' \<noteq> Some ''Suspended''"
    using slow_poll_enabled by simp
  have twelve: "\<forall>i<12. get_bucket_versioning example_policy slow_client ''b'' (0, 12 - i)
        = (Inr (Some ''Enabled''), (0, 12 - Suc i), [GetBucketVersioning ''b''])
      \<and> Some ''Enabled'' \<noteq> Some ''Suspended''"
    using slow_poll_enabled by simp
  from wait_versioning_is_applied_bounded[OF late]
  have "\<forall>k ws ss ts wk tk.
          k < 12 \<and> ws 0 = (0, 11)
          \<and> (\<forall>i<k. get_bucket_versioning example_policy slow_client ''b'' (ws i)
                     = (Inr (ss i), ws (Suc i), ts i)
                   \<and> ss i \<noteq> Some ''Suspended'')
          \<and> get_bucket_versioning example_policy slow_client ''b'' (ws k)
              = (Inr (Some ''Suspended''), wk, tk)
          \<longrightarrow> (fst ?late, fst (snd ?late), snd (snd ?late))
              = (Inr (Some ''Suspended''), wk, concat (map (\<lambda>i. ts i @ [Sleep 5]) [0..<k]) @ tk)"
    by (elim conjE)
  from this[rule_format, of 11 "\<lambda>i. (0, 11 - i)" "\<lambda>i. Some ''Enabled''"
      "\<lambda>i. [GetBucketVersioning ''b'']" "(0, 0)" "[GetBucketVersioning ''b'']"]
    eleven slow_poll_suspended
  have 1: "?late = (Inr (Some ''Suspended''), (0, 0),
        concat (map (\<lambda>i. [GetBucketVersioning ''b''] @ [Sleep 5]) [0..<11])
        @ [GetBucketVersioning ''b''])"
    by (simp del: upt_Suc)
  note bounded = wait_versioning_is_applied_bounded[OF never]
  from bounded
  have "\<forall>ws ss ts.
          ws 0 = (0, 12)
          \<and> (\<forall>i<12. get_bucket_versioning example_policy slow_client ''b'' (ws i)
                      = (Inr (ss i), ws (Suc i), ts i)
                    \<and> ss i \<noteq> Some ''Suspended'')
          \<longrightarrow> (fst ?never, fst (snd ?never), snd (snd ?never))
              = (Inl (Fail_json ''Bucket versioning failed to apply in the excepted time''),
                 ws 12, concat (map (\<lambda>i. ts i @ [Sleep 5]) [0..<12]))"
    by (elim conjE)
  from this[rule_format, of "\<lambda>i. (0, 12 - i)" "\<lambda>i. Some ''Enabled''"
      "\<lambda>i. [GetBucketVersioning ''b'']"] twelve
  have 2: "?never = (Inl (Fail_json ''Bucket versioning failed to apply in the excepted time''),
        (0, 0), concat (map (\<lambda>i. [GetBucketVersioning ''b''] @ [Sleep 5]) [0..<12]))"
    by (simp del: upt_Suc)
  from bounded 2 have 3: "polls (snd (snd ?never)) = 12 \<and> length (sleeps (snd (snd ?never))) = 12"
    by (simp del: upt_Suc)
  from 1 2 3 show ?thesis by blast
qed

section \<open>The bucket delete\<close>

theorem transient_delete_error_recovers:
  "base_found example_policy ''Throttling''
   \<and> s3_delete_bucket flaky_delete_client ''b'' (1, 0)
       = (Inl (ClientError ''Throttling''), (0, 0))
   \<and> ''Throttling'' \<noteq> ''NoSuchBucket''
   \<and> delete_bucket example_policy flaky_delete_client ''b'' (1, 0)
       = (Inr (), (0, 0), [DeleteBucket ''b'', RetrySleep 3, DeleteBucket ''b''])
   \<and> destroy_bucket example_policy flaky_delete_client False ''b'' (1, 0)
       = (Inl (Exit_json True), (0, 0),
          [ListBuckets ''b'', DeleteBucket ''b'', RetrySleep 3, DeleteBucket ''b'',
           WaitBucketNotExists ''b''])"
  by code_simp

text \<open>
  C5, with the retry of the decorator: when the store answers the \<^verbatim>\<open>delete_bucket\<close>
  request with \<^verbatim>\<open>NoSuchBucket\<close>, the function body swallows it and \<^verbatim>\<open>delete_bucket\<close>
  completes normally after that one request. Any other client error is raised again by the
  body. It leaves \<^verbatim>\<open>delete_bucket\<close> at once when the retry decorator does not hold its
  code transient, and after the retries when the store keeps answering with it; the
  workflow then ends with \<^verbatim>\<open>fail_json_aws\<close> and the message
  \<^verbatim>\<open>Failed to delete bucket\<close>. A transient code is followed by a pause and a second
  request, and when that one succeeds \<^verbatim>\<open>delete_bucket\<close> completes normally.
\<close>

theorem delete_bucket_swallows_missing_bucket:
  "(s3_delete_bucket c name w = (Inl (ClientError ''NoSuchBucket''), w') \<longrightarrow>
      delete_bucket_wrapped c name w = (Inr (), w', [DeleteBucket name])
      \<and> delete_bucket pol c name w = (Inr (), w', [DeleteBucket name]))
   \<and> (s3_delete_bucket c name w = (Inl (ClientError code), w') \<and> code \<noteq> ''NoSuchBucket'' \<longrightarrow>
      delete_bucket_wrapped c name w = (Inl (ClientError code), w', [DeleteBucket name])
      \<and> (\<not> base_found pol code \<longrightarrow>
           delete_bucket pol c name w = (Inl (ClientError code), w', [DeleteBucket name])
           \<and> delete_and_wait pol c name w
               = (Inl (Fail_json_aws (ClientError code) ''Failed to delete bucket''), w',
                  [DeleteBucket name])))
   \<and> ((\<forall>wa. \<exists>wb. s3_delete_bucket c name wa = (Inl (ClientError code), wb))
        \<and> code \<noteq> ''NoSuchBucket'' \<longrightarrow>
      (\<exists>w'' t. delete_bucket pol c name w = (Inl (ClientError code), w'', t)
         \<and> delete_and_wait pol c name w
             = (Inl (Fail_json_aws (ClientError code) ''Failed to delete bucket''), w'', t)))
   \<and> (0 < retries pol \<and> base_found pol code \<and> code \<noteq> ''NoSuchBucket''
        \<and> s3_delete_bucket c name w = (Inl (ClientError code), w')
        \<and> s3_delete_bucket c name w' = (Inr (), w2) \<longrightarrow>
      delete_bucket pol c name w
        = (Inr (), w2, [DeleteBucket name, RetrySleep (min (delay pol) 120), DeleteBucket name]))"
proof (intro conjI impI)
  assume a: "s3_delete_bucket c name w = (Inl (ClientError ''NoSuchBucket''), w')"
  then show body: "delete_bucket_wrapped c name w = (Inr (), w', [DeleteBucket name])"
    by (simp add: delete_bucket_wrapped_def issue_def)
  then show "delete_bucket pol c name w = (Inr (), w', [DeleteBucket name])"
    unfolding delete_bucket_def exponential_backoff_def by (rule retry_func_success)
next
  assume b: "s3_delete_bucket c name w = (Inl (ClientError code), w') \<and> code \<noteq> ''NoSuchBucket''"
  then show body: "delete_bucket_wrapped c name w = (Inl (ClientError code), w', [DeleteBucket name])"
    by (simp add: delete_bucket_wrapped_def issue_def)
  assume fatal: "\<not> base_found pol code"
  with body show raised:
    "delete_bucket pol c name w = (Inl (ClientError code), w', [DeleteBucket name])"
    unfolding delete_bucket_def exponential_backoff_def by (intro retry_func_fatal) auto
  then show "delete_and_wait pol c name w
      = (Inl (Fail_json_aws (ClientError code) ''Failed to delete bucket''), w',
         [DeleteBucket name])"
    by (simp add: delete_and_wait_def seq_def try_except_def delete_failed_def
        fail_json_aws_on_def)
next
  assume p: "(\<forall>wa. \<exists>wb. s3_delete_bucket c name wa = (Inl (ClientError code), wb))
        \<and> code \<noteq> ''NoSuchBucket''"
  have body: "\<exists>wb. delete_bucket_wrapped c name wa
      = (Inl (ClientError code), wb, [DeleteBucket name]) \<and> True" for wa
  proof -
    from p obtain wb where "s3_delete_bucket c name wa = (Inl (ClientError code), wb)" by blast
    with p show ?thesis by (simp add: delete_bucket_wrapped_def issue_def)
  qed
  from retry_func_persistent[of "\<lambda>w. True" "delete_bucket_wrapped c name" _ _ w, OF body]
  obtain w'' t where raised: "delete_bucket pol c name w = (Inl (ClientError code), w'', t)"
    unfolding delete_bucket_def exponential_backoff_def by blast
  then have "delete_and_wait pol c name w
      = (Inl (Fail_json_aws (ClientError code) ''Failed to delete bucket''), w'', t)"
    by (simp add: delete_and_wait_def seq_def try_except_def delete_failed_def
        fail_json_aws_on_def)
  with raised show "\<exists>w'' t. delete_bucket pol c name w = (Inl (ClientError code), w'', t)
         \<and> delete_and_wait pol c name w
             = (Inl (Fail_json_aws (ClientError code) ''Failed to delete bucket''), w'', t)"
    by blast
next
  assume "0 < retries pol \<and> base_found pol code \<and> code \<noteq> ''NoSuchBucket''
        \<and> s3_delete_bucket c name w = (Inl (ClientError code), w')
        \<and> s3_delete_bucket c name w' = (Inr (), w2)"
  then show "delete_bucket pol c name w
        = (Inr (), w2, [DeleteBucket name, RetrySleep (min (delay pol) 120), DeleteBucket name])"
    unfolding delete_bucket_def
    by (subst first_retry[where code = code]) (auto simp: delete_bucket_wrapped_def issue_def)
qed

theorem delete_bucket_swallows_missing_bucket_witness:
  "delete_bucket example_policy mem_client ''b1'' [] = (Inr (), [], [DeleteBucket ''b1''])
   \<and> delete_bucket example_policy mem_client ''b1'' [(''b1'', b1)]
      = (Inl (ClientError ''BucketNotEmpty''), [(''b1'', b1)], [DeleteBucket ''b1''])
   \<and> delete_and_wait example_policy mem_client ''b1'' [(''b1'', b1)]
      = (Inl (Fail_json_aws (ClientError ''BucketNotEmpty'') ''Failed to delete bucket''),
         [(''b1'', b1)], [DeleteBucket ''b1''])
   \<and> base_found example_policy ''ServiceUnavailable''
   \<and> fst (delete_and_wait example_policy unavailable_client ''b1'' [])
      = Inl (Fail_json_aws (ClientError ''ServiceUnavailable'') ''Failed to delete bucket'')
   \<and> delete_bucket example_policy slow_client ''b'' (1, 0)
      = (Inr (), (0, 0), [DeleteBucket ''b'', RetrySleep 3, DeleteBucket ''b''])"
proof -
  have recovers: "0 < retries example_policy \<and> base_found example_policy ''Throttling''
      \<and> ''Throttling'' \<noteq> ''NoSuchBucket''
      \<and> s3_delete_bucket slow_client ''b'' (1, 0) = (Inl (ClientError ''Throttling''), (0, 0))
      \<and> s3_delete_bucket slow_client ''b'' (0, 0) = (Inr (), (0, 0))"
    by (simp add: example_policy_def slow_client_def throttled_def)
  have first_delay: "min (delay example_policy) 120 = 3" by (simp add: example_policy_def)
  from delete_bucket_swallows_missing_bucket[of slow_client "''b''" "(1, 0)" "(0, 0)"
      example_policy "''Throttling''" "(0, 0)"] recovers first_delay
  have 4: "delete_bucket example_policy slow_client ''b'' (1, 0)
      = (Inr (), (0, 0), [DeleteBucket ''b'', RetrySleep 3, DeleteBucket ''b''])"
    by simp
  have missing: "s3_delete_bucket mem_client ''b1'' [] = (Inl (ClientError ''NoSuchBucket''), [])"
    by (simp add: mem_client_def on_bucket_def)
  have refused: "s3_delete_bucket mem_client ''b1'' [(''b1'', b1)]
      = (Inl (ClientError ''BucketNotEmpty''), [(''b1'', b1)])
    \<and> ''BucketNotEmpty'' \<noteq> ''NoSuchBucket''"
    by (simp add: mem_client_def on_bucket_def b1_def)
  have fatal: "\<not> base_found example_policy ''BucketNotEmpty''"
    by (simp add: example_policy_def)
  have transient: "base_found example_policy ''ServiceUnavailable''"
    by (simp add: example_policy_def)
  have persistent: "(\<forall>wa. \<exists>wb. s3_delete_bucket unavailable_client ''b1'' wa
        = (Inl (ClientError ''ServiceUnavailable''), wb))
    \<and> ''ServiceUnavailable'' \<noteq> ''NoSuchBucket''"
    by (simp add: unavailable_client_def)
  from delete_bucket_swallows_missing_bucket[of mem_client "''b1''" "[]" "[]" example_policy]
    missing
  have 1: "delete_bucket example_policy mem_client ''b1'' [] = (Inr (), [], [DeleteBucket ''b1''])"
    by blast
  from delete_bucket_swallows_missing_bucket[of mem_client "''b1''" "[(''b1'', b1)]"
      "[(''b1'', b1)]" example_policy "''BucketNotEmpty''"] refused fatal
  have 2: "delete_bucket example_policy mem_client ''b1'' [(''b1'', b1)]
      = (Inl (ClientError ''BucketNotEmpty''), [(''b1'', b1)], [DeleteBucket ''b1''])
   \<and> delete_and_wait example_policy mem_client ''b1'' [(''b1'', b1)]
      = (Inl (Fail_json_aws (ClientError ''BucketNotEmpty'') ''Failed to delete bucket''),
         [(''b1'', b1)], [DeleteBucket ''b1''])"
    by blast
  from delete_bucket_swallows_missing_bucket[of unavailable_client "''b1''" "[]" _
      example_policy "''ServiceUnavailable''"] persistent
  obtain w'' t where "delete_and_wait example_policy unavailable_client ''b1'' []
      = (Inl (Fail_json_aws (ClientError ''ServiceUnavailable'') ''Failed to delete bucket''),
         w'', t)"
    by blast
  then have 3: "fst (delete_and_wait example_policy unavailable_client ''b1'' [])
      = Inl (Fail_json_aws (ClientError ''ServiceUnavailable'') ''Failed to delete bucket'')"
    by simp
  from 1 2 3 4 transient show ?thesis by blast
qed

section \<open>Which requests are retried\<close>

theorem throttled_probe_aborts:
  "base_found example_policy ''Throttling''
   \<and> s3_list_buckets slow_client ''b'' (1, 2) = (Inl (ClientError ''Throttling''), (0, 2))
   \<and> destroy_bucket example_policy slow_client True ''b'' (1, 2)
      = (Inl (Fail_json_aws (ClientError ''Throttling'') ''Failed to check bucket presence''),
         (0, 2), [ListBuckets ''b''])
   \<and> fst (destroy_bucket example_policy slow_client True ''b'' (0, 2)) = Inl (Exit_json True)"
  by code_simp

text \<open>
  C9, for the calls that the module decorates: the retry decorator wraps the read of the versioning status, its write
  and the bucket delete, and nothing else. On those, a transient client error on the first
  request is followed by a pause of the first delay, capped at 120, and a second request,
  whose answer is the result. The existence probe, the two listings and the version-aware
  \<^verbatim>\<open>delete_object\<close> are requested once, and an error of theirs ends the workflow.
\<close>

theorem retry_wraps_three_calls:
  "(0 < retries pol \<and> (base_found pol code \<or> code = ''NoSuchBucket'')
      \<and> s3_get_bucket_versioning c name w = (Inl (ClientError code), w1)
      \<and> s3_get_bucket_versioning c name w1 = (Inr status, w2)
    \<longrightarrow> get_bucket_versioning pol c name w
        = (Inr status, w2,
           [GetBucketVersioning name, RetrySleep (min (delay pol) 120), GetBucketVersioning name]))
   \<and> (0 < retries pol \<and> (base_found pol code \<or> code = ''NoSuchBucket'')
      \<and> s3_put_bucket_versioning c name required w = (Inl (ClientError code), w1)
      \<and> s3_put_bucket_versioning c name required w1 = (Inr (), w2)
    \<longrightarrow> put_bucket_versioning pol c name required w
        = (Inr (), w2,
           [PutBucketVersioning name required, RetrySleep (min (delay pol) 120),
            PutBucketVersioning name required]))
   \<and> (0 < retries pol \<and> base_found pol code \<and> code \<noteq> ''NoSuchBucket''
      \<and> s3_delete_bucket c name w = (Inl (ClientError code), w1)
      \<and> s3_delete_bucket c name w1 = (Inr (), w2)
    \<longrightarrow> delete_bucket pol c name w
        = (Inr (), w2, [DeleteBucket name, RetrySleep (min (delay pol) 120), DeleteBucket name]))
   \<and> (s3_list_buckets c name w = (Inl e, w1)
    \<longrightarrow> destroy_bucket pol c force name w = (Inl (presence_failed e), w1, [ListBuckets name]))
   \<and> (s3_list_object_versions c name w = Raises e
    \<longrightarrow> purge_versions c name w = (Inl (Uncaught e), w, [ListObjectVersions name (Inl e)]))
   \<and> (s3_list_objects_v2 c name w = Raises e
    \<longrightarrow> purge_objects c name w = (Inl (Uncaught e), w, [ListObjectsV2 name (Inl e)]))
   \<and> (s3_delete_object c name key (Some versionId) w = (Inl e, w1)
    \<longrightarrow> for_each (delete_version c name) ((key, versionId) # others) w
        = (Inl (Uncaught e), w1, [DeleteObject name key (Some versionId)]))"
proof (intro conjI impI; (elim conjE)?)
  assume "0 < retries pol" "base_found pol code \<or> code = ''NoSuchBucket''"
    "s3_get_bucket_versioning c name w = (Inl (ClientError code), w1)"
    "s3_get_bucket_versioning c name w1 = (Inr status, w2)"
  then show "get_bucket_versioning pol c name w
        = (Inr status, w2,
           [GetBucketVersioning name, RetrySleep (min (delay pol) 120), GetBucketVersioning name])"
    unfolding get_bucket_versioning_def
    by (subst first_retry[where code = code]) (auto simp: issue_def)
next
  assume "0 < retries pol" "base_found pol code \<or> code = ''NoSuchBucket''"
    "s3_put_bucket_versioning c name required w = (Inl (ClientError code), w1)"
    "s3_put_bucket_versioning c name required w1 = (Inr (), w2)"
  then show "put_bucket_versioning pol c name required w
        = (Inr (), w2,
           [PutBucketVersioning name required, RetrySleep (min (delay pol) 120),
            PutBucketVersioning name required])"
    unfolding put_bucket_versioning_def
    by (subst first_retry[where code = code]) (auto simp: issue_def)
next
  assume "0 < retries pol" "base_found pol code" "code \<noteq> ''NoSuchBucket''"
    "s3_delete_bucket c name w = (Inl (ClientError code), w1)"
    "s3_delete_bucket c name w1 = (Inr (), w2)"
  then show "delete_bucket pol c name w
        = (Inr (), w2, [DeleteBucket name, RetrySleep (min (delay pol) 120), DeleteBucket name])"
    unfolding delete_bucket_def
    by (subst first_retry[where code = code]) (auto simp: delete_bucket_wrapped_def issue_def)
next
  assume "s3_list_buckets c name w = (Inl e, w1)"
  then show "destroy_bucket pol c force name w = (Inl (presence_failed e), w1, [ListBuckets name])"
    by (simp add: destroy_bucket_def bucket_exists_def seq_def try_except_def issue_def)
next
  assume "s3_list_object_versions c name w = Raises e"
  then show "purge_versions c name w = (Inl (Uncaught e), w, [ListObjectVersions name (Inl e)])"
    by (simp add: purge_versions_def)
next
  assume "s3_list_objects_v2 c name w = Raises e"
  then show "purge_objects c name w = (Inl (Uncaught e), w, [ListObjectsV2 name (Inl e)])"
    by (simp add: purge_objects_def)
next
  assume "s3_delete_object c name key (Some versionId) w = (Inl e, w1)"
  then show "for_each (delete_version c name) ((key, versionId) # others) w
        = (Inl (Uncaught e), w1, [DeleteObject name key (Some versionId)])"
    by (simp add: delete_version_def seq_def try_except_def issue_def)
qed

theorem retry_wraps_three_calls_witness:
  "get_bucket_versioning example_policy slow_client ''b'' (1, 0)
     = (Inr (Some ''Suspended''), (0, 0),
        [GetBucketVersioning ''b'', RetrySleep 3, GetBucketVersioning ''b''])
   \<and> put_bucket_versioning example_policy slow_client ''b'' ''Suspended'' (1, 0)
     = (Inr (), (0, 0),
        [PutBucketVersioning ''b'' ''Suspended'', RetrySleep 3,
         PutBucketVersioning ''b'' ''Suspended''])
   \<and> delete_bucket example_policy slow_client ''b'' (1, 0)
     = (Inr (), (0, 0), [DeleteBucket ''b'', RetrySleep 3, DeleteBucket ''b''])
   \<and> destroy_bucket example_policy slow_client True ''b'' (1, 0)
     = (Inl (Fail_json_aws (ClientError ''Throttling'') ''Failed to check bucket presence''),
        (0, 0), [ListBuckets ''b''])
   \<and> for_each (delete_version slow_client ''b'') [(''k'', ''v'')] (1, 0)
     = (Inl (Uncaught (ClientError ''Throttling'')), (0, 0),
        [DeleteObject ''b'' ''k'' (Some ''v'')])
   \<and> purge_versions mem_client ''b2'' []
     = (Inl (Uncaught (ClientError ''NoSuchBucket'')), [],
        [ListObjectVersions ''b2'' (Inl (ClientError ''NoSuchBucket''))])
   \<and> purge_objects mem_client ''b2'' []
     = (Inl (Uncaught (ClientError ''NoSuchBucket'')), [],
        [ListObjectsV2 ''b2'' (Inl (ClientError ''NoSuchBucket''))])"
proof -
  have policy: "0 < retries example_policy" "base_found example_policy ''Throttling''"
    "''Throttling'' \<noteq> ''NoSuchBucket''" "min (delay example_policy) 120 = 3"
    by (simp_all add: example_policy_def)
  have get: "s3_get_bucket_versioning slow_client ''b'' (1, 0)
      = (Inl (ClientError ''Throttling''), (0, 0))"
    "s3_get_bucket_versioning slow_client ''b'' (0, 0) = (Inr (Some ''Suspended''), (0, 0))"
    by (simp_all add: slow_client_def throttled_def)
  have put: "s3_put_bucket_versioning slow_client ''b'' ''Suspended'' (1, 0)
      = (Inl (ClientError ''Throttling''), (0, 0))"
    "s3_put_bucket_versioning slow_client ''b'' ''Suspended'' (0, 0) = (Inr (), (0, 0))"
    by (simp_all add: slow_client_def throttled_def)
  have del: "s3_delete_bucket slow_client ''b'' (1, 0) = (Inl (ClientError ''Throttling''), (0, 0))"
    "s3_delete_bucket slow_client ''b'' (0, 0) = (Inr (), (0, 0))"
    by (simp_all add: slow_client_def throttled_def)
  have probe: "s3_list_buckets slow_client ''b'' (1, 0) = (Inl (ClientError ''Throttling''), (0, 0))"
    by (simp add: slow_client_def throttled_def)
  have obj: "s3_delete_object slow_client ''b'' ''k'' (Some ''v'') (1, 0)
      = (Inl (ClientError ''Throttling''), (0, 0))"
    by (simp add: slow_client_def throttled_def)
  have listing: "s3_list_object_versions mem_client ''b2'' [] = Raises (ClientError ''NoSuchBucket'')"
    "s3_list_objects_v2 mem_client ''b2'' [] = Raises (ClientError ''NoSuchBucket'')"
    by (simp_all add: mem_client_def)
  have failed: "presence_failed (ClientError ''Throttling'')
      = Fail_json_aws (ClientError ''Throttling'') ''Failed to check bucket presence''"
    by (simp add: presence_failed_def fail_json_aws_on_def)
  note slow = retry_wraps_three_calls[where pol = example_policy and code = "''Throttling''"
      and c = slow_client and name = "''b''" and w = "(1, 0)" and ?w1.0 = "(0, 0)"
      and ?w2.0 = "(0, 0)" and status = "Some ''Suspended''" and required = "''Suspended''"
      and e = "ClientError ''Throttling''" and force = True and key = "''k''"
      and versionId = "''v''" and others = "[]"]
  note mem = retry_wraps_three_calls[where c = mem_client and name = "''b2''" and w = "[]"
      and e = "ClientError ''NoSuchBucket''"]
  from slow policy get put del probe obj failed
  have part1: "get_bucket_versioning example_policy slow_client ''b'' (1, 0)
     = (Inr (Some ''Suspended''), (0, 0),
        [GetBucketVersioning ''b'', RetrySleep 3, GetBucketVersioning ''b''])
   \<and> put_bucket_versioning example_policy slow_client ''b'' ''Suspended'' (1, 0)
     = (Inr (), (0, 0),
        [PutBucketVersioning ''b'' ''Suspended'', RetrySleep 3,
         PutBucketVersioning ''b'' ''Suspended''])
   \<and> delete_bucket example_policy slow_client ''b'' (1, 0)
     = (Inr (), (0, 0), [DeleteBucket ''b'', RetrySleep 3, DeleteBucket ''b''])
   \<and> destroy_bucket example_policy slow_client True ''b'' (1, 0)
     = (Inl (Fail_json_aws (ClientError ''Throttling'') ''Failed to check bucket presence''),
        (0, 0), [ListBuckets ''b''])
   \<and> for_each (delete_version slow_client ''b'') [(''k'', ''v'')] (1, 0)
     = (Inl (Uncaught (ClientError ''Throttling'')), (0, 0),
        [DeleteObject ''b'' ''k'' (Some ''v'')])"
    by simp
  from mem listing
  have part2: "purge_versions mem_client ''b2'' []
     = (Inl (Uncaught (ClientError ''NoSuchBucket'')), [],
        [ListObjectVersions ''b2'' (Inl (ClientError ''NoSuchBucket''))])
   \<and> purge_objects mem_client ''b2'' []
     = (Inl (Uncaught (ClientError ''NoSuchBucket'')), [],
        [ListObjectsV2 ''b2'' (Inl (ClientError ''NoSuchBucket''))])"
    by simp
  from part1 part2 show ?thesis by blast
qed

end
